theory Spec2Isabelle
  imports Main "HOL-Library.Char_ord" "HOL-Library.List_Lexorder" "HOL-Library.Multiset"
begin

section \<open>Strings and objects of the client script\<close>

text \<open>
  The client script \<^verbatim>\<open>static/js/main.js\<close> is embedded function by function.
  A JavaScript string is a \<^typ>\<open>string\<close>: each \<^typ>\<open>char\<close> stands for one
  UTF-16 code unit in the range U+0000..U+00FF, so \<open>length\<close> counts code units as
  \<^verbatim>\<open>String.prototype.length\<close> does. Text outside that range is outside the model.

  A plain JavaScript object used as a dictionary is an association list with distinct
  keys in insertion order. \<^verbatim>\<open>Object.keys\<close> lists the keys that are canonical array
  indices first, in ascending numeric order, and every other key after them in insertion
  order. The keys of the connection cache and the names of form fields come from the server
  and from the script; they are taken not to be names that every object inherits from
  \<^verbatim>\<open>Object.prototype\<close>. Group names are typed by users, and the object of the
  groups is modelled with its inherited names.
\<close>

type_synonym 'v js_object = "(string \<times> 'v) list"

definition is_digit :: "char \<Rightarrow> bool" where
  "is_digit c = (c \<in> set ''0123456789'')"

fun digit_val :: "char \<Rightarrow> nat" where
  "digit_val c = of_char c - 48"

definition decimal_val :: "string \<Rightarrow> int" where
  "decimal_val s = foldl (\<lambda>n c. 10 * n + int (digit_val c)) 0 s"

definition is_array_index :: "string \<Rightarrow> bool" where
  "is_array_index s =
     (s \<noteq> [] \<and> list_all is_digit s \<and> (s = ''0'' \<or> hd s \<noteq> CHR ''0'')
      \<and> decimal_val s < 4294967295)"

definition obj_get :: "('k \<times> 'v) list \<Rightarrow> 'k \<Rightarrow> 'v option" where
  "obj_get obj k = map_of obj k"

fun obj_set :: "('k \<times> 'v) list \<Rightarrow> 'k \<Rightarrow> 'v \<Rightarrow> ('k \<times> 'v) list" where
  "obj_set [] k v = [(k, v)]"
| "obj_set ((k', v') # rest) k v =
     (if k' = k then (k, v) # rest else (k', v') # obj_set rest k v)"

definition Object_entries :: "'v js_object \<Rightarrow> (string \<times> 'v) list" where
  "Object_entries obj =
     sort_key (\<lambda>(k, v). decimal_val k) (filter (\<lambda>(k, v). is_array_index k) obj)
     @ filter (\<lambda>(k, v). \<not> is_array_index k) obj"

definition Object_keys :: "'v js_object \<Rightarrow> string list" where
  "Object_keys obj = map fst (Object_entries obj)"

definition Object_values :: "'v js_object \<Rightarrow> 'v list" where
  "Object_values obj = map snd (Object_entries obj)"

section \<open>JSON texts\<close>

text \<open>
  \<^verbatim>\<open>JSON.parse\<close> belongs to the runtime. It is modelled after the JSON grammar
  (ECMA-404) as a lexer followed by a pushdown parser, both folds over their input.
  A JSON string is kept as the list of its code units, so that \<^verbatim>\<open>\uXXXX\<close> escapes
  of any value have a place; a number is kept as its lexeme. An object keeps its
  properties in insertion order, a repeated key overwriting the earlier value.
\<close>

datatype json =
    JNull
  | JBool bool
  | JNum string
  | JStr "nat list"
  | JArr "json list"
  | JObj "(nat list \<times> json) list"

datatype token =
    TLBrace | TRBrace | TLBracket | TRBracket | TColon | TComma
  | TString "nat list" | TNumber string | TTrue | TFalse | TNull

subsection \<open>Numbers\<close>

definition json_exponent :: "string \<Rightarrow> bool" where
  "json_exponent s =
     (case s of
        [] \<Rightarrow> True
      | e # r \<Rightarrow>
          (e = CHR ''e'' \<or> e = CHR ''E'')
          \<and> (let d = (case r of
                        [] \<Rightarrow> []
                      | sg # t \<Rightarrow> if sg = CHR ''+'' \<or> sg = CHR ''-'' then t else r)
             in d \<noteq> [] \<and> list_all is_digit d))"

definition json_fraction :: "string \<Rightarrow> bool" where
  "json_fraction s =
     (case s of
        [] \<Rightarrow> True
      | p # r \<Rightarrow>
          if p = CHR ''.''
          then (case r of
                  [] \<Rightarrow> False
                | d # t \<Rightarrow> is_digit d \<and> json_exponent (dropWhile is_digit t))
          else json_exponent s)"

definition json_number :: "string \<Rightarrow> bool" where
  "json_number s =
     (let u = (case s of [] \<Rightarrow> [] | m # r \<Rightarrow> if m = CHR ''-'' then r else s)
      in case u of
           [] \<Rightarrow> False
         | d # r \<Rightarrow>
             if d = CHR ''0'' then json_fraction r
             else is_digit d \<and> json_fraction (dropWhile is_digit r))"

subsection \<open>The lexer\<close>

definition json_whitespace :: "char \<Rightarrow> bool" where
  "json_whitespace c = (c \<in> set [CHR 0x20, CHR 0x09, CHR 0x0A, CHR 0x0D])"

definition is_word_char :: "char \<Rightarrow> bool" where
  "is_word_char c =
     (c \<in> set ''abcdefghijklmnopqrstuvwxyzABCDEFGHIJKLMNOPQRSTUVWXYZ0123456789+-.'')"

text \<open>
  A literal name or a number is read as the longest run of letters, digits, signs and
  dots and then checked; in a JSON text two such tokens never stand side by side, so the
  longest run is one token or an error.
\<close>

definition word_token :: "string \<Rightarrow> token option" where
  "word_token w =
     (if w = ''true'' then Some TTrue
      else if w = ''false'' then Some TFalse
      else if w = ''null'' then Some TNull
      else if json_number w then Some (TNumber w)
      else None)"

definition escape_code :: "char \<Rightarrow> nat option" where
  "escape_code c =
     (if c = CHR 0x22 then Some 0x22
      else if c = CHR 0x5C then Some 0x5C
      else if c = CHR ''/'' then Some 0x2F
      else if c = CHR ''b'' then Some 0x08
      else if c = CHR ''f'' then Some 0x0C
      else if c = CHR ''n'' then Some 0x0A
      else if c = CHR ''r'' then Some 0x0D
      else if c = CHR ''t'' then Some 0x09
      else None)"

definition hex_digit :: "char \<Rightarrow> nat option" where
  "hex_digit c =
     (if is_digit c then Some (digit_val c)
      else if c \<in> set ''abcdef'' then Some (of_char c - 87)
      else if c \<in> set ''ABCDEF'' then Some (of_char c - 55)
      else None)"

datatype lex_mode =
    LIdle
  | LString "nat list"
  | LEscape "nat list"
  | LUnicode "nat list" "nat list"
  | LWord string

definition idle_char :: "char \<Rightarrow> (lex_mode \<times> token list) option" where
  "idle_char c =
     (if json_whitespace c then Some (LIdle, [])
      else if c = CHR ''{'' then Some (LIdle, [TLBrace])
      else if c = CHR ''}'' then Some (LIdle, [TRBrace])
      else if c = CHR ''['' then Some (LIdle, [TLBracket])
      else if c = CHR '']'' then Some (LIdle, [TRBracket])
      else if c = CHR '':'' then Some (LIdle, [TColon])
      else if c = CHR '','' then Some (LIdle, [TComma])
      else if c = CHR 0x22 then Some (LString [], [])
      else if is_word_char c then Some (LWord [c], [])
      else None)"

fun lex :: "lex_mode \<Rightarrow> token list \<Rightarrow> string \<Rightarrow> token list option" where
  "lex LIdle acc [] = Some (rev acc)"
| "lex (LWord w) acc [] =
     (case word_token w of None \<Rightarrow> None | Some t \<Rightarrow> Some (rev (t # acc)))"
| "lex (LString s) acc [] = None"
| "lex (LEscape s) acc [] = None"
| "lex (LUnicode s h) acc [] = None"
| "lex LIdle acc (c # cs) =
     (case idle_char c of
        None \<Rightarrow> None
      | Some (m, ts) \<Rightarrow> lex m (ts @ acc) cs)"
| "lex (LWord w) acc (c # cs) =
     (if is_word_char c then lex (LWord (w @ [c])) acc cs
      else case word_token w of
             None \<Rightarrow> None
           | Some t \<Rightarrow>
               (case idle_char c of
                  None \<Rightarrow> None
                | Some (m, ts) \<Rightarrow> lex m (ts @ t # acc) cs))"
| "lex (LString s) acc (c # cs) =
     (if c = CHR 0x22 then lex LIdle (TString s # acc) cs
      else if c = CHR 0x5C then lex (LEscape s) acc cs
      else if (of_char c :: nat) < 0x20 then None
      else lex (LString (s @ [of_char c])) acc cs)"
| "lex (LEscape s) acc (c # cs) =
     (if c = CHR ''u'' then lex (LUnicode s []) acc cs
      else case escape_code c of
             None \<Rightarrow> None
           | Some n \<Rightarrow> lex (LString (s @ [n])) acc cs)"
| "lex (LUnicode s h) acc (c # cs) =
     (case hex_digit c of
        None \<Rightarrow> None
      | Some d \<Rightarrow>
          if length h = 3
          then lex (LString (s @ [foldl (\<lambda>n x. 16 * n + x) 0 (h @ [d])])) acc cs
          else lex (LUnicode s (h @ [d])) acc cs)"

subsection \<open>The parser\<close>

datatype frame =
    FArray "json list"
  | FObject "(nat list \<times> json) list" "nat list option"

datatype parse_state =
    PValue "frame list"
  | PValueOrClose "frame list"
  | PKeyOrClose "frame list"
  | PKey "frame list"
  | PColon "frame list"
  | PAfter "frame list"
  | PDone json

fun push_value :: "json \<Rightarrow> frame list \<Rightarrow> parse_state option" where
  "push_value v [] = Some (PDone v)"
| "push_value v (FArray xs # st) = Some (PAfter (FArray (xs @ [v]) # st))"
| "push_value v (FObject kvs (Some k) # st) = Some (PAfter (FObject (obj_set kvs k v) None # st))"
| "push_value v (FObject kvs None # st) = None"

fun start_value :: "frame list \<Rightarrow> token \<Rightarrow> parse_state option" where
  "start_value st TLBracket = Some (PValueOrClose (FArray [] # st))"
| "start_value st TLBrace = Some (PKeyOrClose (FObject [] None # st))"
| "start_value st (TString s) = push_value (JStr s) st"
| "start_value st (TNumber n) = push_value (JNum n) st"
| "start_value st TTrue = push_value (JBool True) st"
| "start_value st TFalse = push_value (JBool False) st"
| "start_value st TNull = push_value JNull st"
| "start_value st _ = None"

fun close_array :: "frame list \<Rightarrow> parse_state option" where
  "close_array (FArray xs # st) = push_value (JArr xs) st"
| "close_array _ = None"

fun close_object :: "frame list \<Rightarrow> parse_state option" where
  "close_object (FObject kvs None # st) = push_value (JObj kvs) st"
| "close_object _ = None"

fun set_key :: "nat list \<Rightarrow> frame list \<Rightarrow> parse_state option" where
  "set_key k (FObject kvs _ # st) = Some (PColon (FObject kvs (Some k) # st))"
| "set_key k _ = None"

fun step :: "parse_state \<Rightarrow> token \<Rightarrow> parse_state option" where
  "step (PValue st) tok = start_value st tok"
| "step (PValueOrClose st) tok =
     (if tok = TRBracket then close_array st else start_value st tok)"
| "step (PKeyOrClose st) tok =
     (case tok of
        TRBrace \<Rightarrow> close_object st
      | TString k \<Rightarrow> set_key k st
      | _ \<Rightarrow> None)"
| "step (PKey st) tok = (case tok of TString k \<Rightarrow> set_key k st | _ \<Rightarrow> None)"
| "step (PColon st) tok = (if tok = TColon then Some (PValue st) else None)"
| "step (PAfter st) tok =
     (case st of
        FArray xs # _ \<Rightarrow>
          (if tok = TComma then Some (PValue st)
           else if tok = TRBracket then close_array st
           else None)
      | FObject kvs _ # _ \<Rightarrow>
          (if tok = TComma then Some (PKey st)
           else if tok = TRBrace then close_object st
           else None)
      | [] \<Rightarrow> None)"
| "step (PDone v) tok = None"

fun parse_tokens :: "parse_state \<Rightarrow> token list \<Rightarrow> json option" where
  "parse_tokens (PDone v) [] = Some v"
| "parse_tokens _ [] = None"
| "parse_tokens s (t # ts) =
     (case step s t of None \<Rightarrow> None | Some s' \<Rightarrow> parse_tokens s' ts)"

definition JSON_parse :: "string \<Rightarrow> json option" where
  "JSON_parse text =
     (case lex LIdle [] text of
        None \<Rightarrow> None
      | Some toks \<Rightarrow> parse_tokens (PValue []) toks)"

subsection \<open>Operators on parsed values\<close>

definition typeof :: "json \<Rightarrow> string" where
  "typeof v =
     (case v of
        JNull \<Rightarrow> ''object''
      | JBool _ \<Rightarrow> ''boolean''
      | JNum _ \<Rightarrow> ''number''
      | JStr _ \<Rightarrow> ''string''
      | JArr _ \<Rightarrow> ''object''
      | JObj _ \<Rightarrow> ''object'')"

definition Array_isArray :: "json \<Rightarrow> bool" where
  "Array_isArray v = (case v of JArr _ \<Rightarrow> True | _ \<Rightarrow> False)"

text \<open>
  \<^verbatim>\<open>String.prototype.trim\<close> removes white space and line terminators from both ends;
  in the range of the model these are the code units below.
\<close>

definition js_whitespace :: "char \<Rightarrow> bool" where
  "js_whitespace c =
     (c \<in> set [CHR 0x09, CHR 0x0A, CHR 0x0B, CHR 0x0C, CHR 0x0D, CHR 0x20, CHR 0xA0])"

definition trim :: "string \<Rightarrow> string" where
  "trim s = rev (dropWhile js_whitespace (rev (dropWhile js_whitespace s)))"

section \<open>The connection cache\<close>

text \<open>
  The global \<^verbatim>\<open>databases\<close> maps a connection key to the record the server listed
  for it. A property that may be missing, \<^verbatim>\<open>null\<close> or \<^verbatim>\<open>undefined\<close> is an
  option; \<^verbatim>\<open>order\<close> is an integer.
\<close>

record status =
  connected :: bool
  error_text :: "string option"

record db_entry =
  db_key :: string
  db_name :: string
  db_engine :: string
  db_fields :: "string js_object option"
  db_group :: "string option"
  db_order :: "int option"
  db_status :: "status option"

type_synonym databases = "db_entry js_object"

text \<open>
  \<^verbatim>\<open>updateDatabaseStatus(dbKey, status)\<close>: an entry is an object and so truthy; the guard
  \<^verbatim>\<open>if (databases[dbKey])\<close> tests presence. The entry is mutated in place, so its
  position in the object is kept. The status light of the page is not part of the state
  modelled here.
\<close>

definition updateDatabaseStatus :: "string \<Rightarrow> status \<Rightarrow> databases \<Rightarrow> databases" where
  "updateDatabaseStatus dbKey st dbs =
     (case obj_get dbs dbKey of
        None \<Rightarrow> dbs
      | Some db \<Rightarrow> obj_set dbs dbKey (db\<lparr>db_status := Some st\<rparr>))"

section \<open>Connection form\<close>

subsection \<open>Field templates\<close>

text \<open>
  \<^verbatim>\<open>DATABASE_CONFIGS\<close> gives, for each engine kind, the fields of the connection form.
  A field has a name, a label, an input type, and may have a placeholder, a numeric
  default and a help text; \<open>mk_field\<close> takes them in this order:
  name, label, type, placeholder, required, default, help.
\<close>

record field_spec =
  field_name :: string
  field_label :: string
  field_type :: string
  field_placeholder :: "string option"
  field_required :: bool
  field_default :: "nat option"
  field_help :: "string option"

definition mk_field ::
  "string \<Rightarrow> string \<Rightarrow> string \<Rightarrow> string option \<Rightarrow> bool \<Rightarrow> nat option \<Rightarrow> string option
   \<Rightarrow> field_spec" where
  "mk_field n l t p r d h =
     \<lparr>field_name = n, field_label = l, field_type = t, field_placeholder = p,
      field_required = r, field_default = d, field_help = h\<rparr>"

record db_config =
  displayName :: string
  config_fields :: "field_spec list"

definition DATABASE_CONFIGS :: "db_config js_object" where
  "DATABASE_CONFIGS =
     [(''postgresql'',
       \<lparr>displayName = ''PostgreSQL'',
        config_fields =
          [mk_field ''host'' ''Host'' ''text''
           (Some ''localhost'') True None None,
           mk_field ''port'' ''Port'' ''number''
           (Some ''5432'') True (Some 5432) None,
           mk_field ''username'' ''Username'' ''text''
           None True None None,
           mk_field ''password'' ''Password'' ''password''
           None True None None,
           mk_field ''database'' ''Database Name'' ''text''
           None True None None]\<rparr>),
      (''mysql'',
       \<lparr>displayName = ''MySQL / MariaDB'',
        config_fields =
          [mk_field ''host'' ''Host'' ''text''
           (Some ''localhost'') True None None,
           mk_field ''port'' ''Port'' ''number''
           (Some ''3306'') True (Some 3306) None,
           mk_field ''username'' ''Username'' ''text''
           None True None None,
           mk_field ''password'' ''Password'' ''password''
           None True None None,
           mk_field ''database'' ''Database Name'' ''text''
           None True None None]\<rparr>),
      (''mssql'',
       \<lparr>displayName = ''SQL Server'',
        config_fields =
          [mk_field ''host'' ''Server'' ''text''
           (Some (''localhost'' @ [CHR 0x5C] @ ''SQLEXPRESS'')) True None None,
           mk_field ''port'' ''Port'' ''number''
           (Some ''1433'') False (Some 1433) None,
           mk_field ''username'' ''Username'' ''text''
           None True None None,
           mk_field ''password'' ''Password'' ''password''
           None True None None,
           mk_field ''database'' ''Database Name'' ''text''
           None True None None]\<rparr>),
      (''oracle'',
       \<lparr>displayName = ''Oracle'',
        config_fields =
          [mk_field ''host'' ''Host'' ''text''
           (Some ''localhost'') True None None,
           mk_field ''port'' ''Port'' ''number''
           (Some ''1521'') True (Some 1521) None,
           mk_field ''username'' ''Username'' ''text''
           None True None None,
           mk_field ''password'' ''Password'' ''password''
           None True None None,
           mk_field ''database'' ''Service Name / SID'' ''text''
           None True None None]\<rparr>),
      (''sqlite'',
       \<lparr>displayName = ''SQLite'',
        config_fields =
          [mk_field ''filePath'' ''File Path'' ''text''
           (Some ''./data/database.db'') True None (Some ''Local path to SQLite file'')]\<rparr>),
      (''mongodb'',
       \<lparr>displayName = ''MongoDB'',
        config_fields =
          [mk_field ''host'' ''Host'' ''text''
           (Some ''localhost'') True None None,
           mk_field ''port'' ''Port'' ''number''
           (Some ''27017'') True (Some 27017) None,
           mk_field ''username'' ''Username'' ''text''
           None False None None,
           mk_field ''password'' ''Password'' ''password''
           None False None None,
           mk_field ''database'' ''Database Name'' ''text''
           None True None None]\<rparr>),
      (''opensearch'',
       \<lparr>displayName = ''OpenSearch'',
        config_fields =
          [mk_field ''host'' ''Host'' ''text''
           (Some ''localhost'') True None None,
           mk_field ''port'' ''Port'' ''number''
           (Some ''9200'') True (Some 9200) None,
           mk_field ''username'' ''Username'' ''text''
           None False None None,
           mk_field ''password'' ''Password'' ''password''
           None False None None]\<rparr>),
      (''elasticsearch'',
       \<lparr>displayName = ''Elasticsearch'',
        config_fields =
          [mk_field ''host'' ''Host'' ''text''
           (Some ''localhost'') True None None,
           mk_field ''port'' ''Port'' ''number''
           (Some ''9200'') True (Some 9200) None,
           mk_field ''username'' ''Username'' ''text''
           None False None None,
           mk_field ''password'' ''Password'' ''password''
           None False None None]\<rparr>)]"

text \<open>
  The table of an engine kind: name, input type, required flag and default of each field,
  in the order of the form. A kind without a template has the empty table.
\<close>

definition field_row :: "field_spec \<Rightarrow> string \<times> string \<times> bool \<times> nat option" where
  "field_row f = (field_name f, field_type f, field_required f, field_default f)"

definition config_table :: "string \<Rightarrow> (string \<times> string \<times> bool \<times> nat option) list" where
  "config_table kind =
     (case obj_get DATABASE_CONFIGS kind of
        None \<Rightarrow> []
      | Some config \<Rightarrow> map field_row (config_fields config))"

subsection \<open>The form and its inputs\<close>

text \<open>
  The state of the connection dialog: the values of its fixed controls and the inputs
  that \<^verbatim>\<open>renderDynamicFields\<close> created, keyed by field name (the element
  \<^verbatim>\<open>field_<name>\<close>). The group input and the Extra JSON textarea are looked up with a
  guard in the script, so they are options here. \<open>type_options\<close> are the values the
  type selector offers; the page markup is not among the sources.
\<close>

record input_el =
  input_type :: string
  input_value :: string
  input_placeholder :: string
  input_required :: bool

record connection_form =
  connectionName :: string
  databaseType :: string
  type_options :: "string list"
  connectionId :: string
  groupName :: "string option"
  extraJson :: "string option"
  field_inputs :: "input_el js_object"

text \<open>The decimal digits of a number, as a template literal prints it.\<close>

fun decimal :: "nat \<Rightarrow> string" where
  "decimal n =
     (if n < 10 then [''0123456789'' ! n]
      else decimal (n div 10) @ [''0123456789'' ! (n mod 10)])"

declare decimal.simps [simp del]

text \<open>
  \<^verbatim>\<open>renderDynamicFields(databaseType)\<close>: an unknown kind empties the container;
  otherwise one input per field, with \<^verbatim>\<open>value="${field.default || ''}"\<close>.
\<close>

definition render_input :: "field_spec \<Rightarrow> input_el" where
  "render_input f =
     \<lparr>input_type = field_type f,
      input_value =
        (case field_default f of
           None \<Rightarrow> []
         | Some n \<Rightarrow> if n = 0 then [] else decimal n),
      input_placeholder = (case field_placeholder f of None \<Rightarrow> [] | Some p \<Rightarrow> p),
      input_required = field_required f\<rparr>"

definition renderDynamicFields :: "string \<Rightarrow> input_el js_object" where
  "renderDynamicFields kind =
     (case obj_get DATABASE_CONFIGS kind of
        None \<Rightarrow> []
      | Some config \<Rightarrow> map (\<lambda>f. (field_name f, render_input f)) (config_fields config))"

subsection \<open>Messages of the dialog\<close>

text \<open>
  The messages \<^verbatim>\<open>showConnectionMessage\<close> shows with type \<^verbatim>\<open>'error'\<close>:
  \<^item> \<open>EnterConnectionName\<close>: \<^verbatim>\<open>Please enter a connection name\<close>;
  \<^item> \<open>SelectDatabaseType\<close>: \<^verbatim>\<open>Please select a database type\<close>;
  \<^item> \<open>ExtraJsonNotObject\<close>: \<^verbatim>\<open>Extra JSON must be a JSON object (e.g. { ... })\<close>;
  \<^item> \<open>InvalidExtraJson\<close>: \<^verbatim>\<open>Invalid Extra JSON: \<close> followed by the runtime's text of
    the syntax error;
  \<^item> \<open>FieldRequired label\<close>: the label followed by \<^verbatim>\<open> is required\<close>.
\<close>

datatype notice =
    EnterConnectionName
  | SelectDatabaseType
  | ExtraJsonNotObject
  | InvalidExtraJson
  | FieldRequired string

subsection \<open>Extra JSON\<close>

definition getExtraJson :: "string option \<Rightarrow> string" where
  "getExtraJson el = (case el of None \<Rightarrow> [] | Some v \<Rightarrow> trim v)"

text \<open>
  \<^verbatim>\<open>validateExtraJson()\<close> returns whether the text may be sent, with the messages it
  showed. The argument is the value of the textarea, if the page has one.
\<close>

definition validateExtraJson :: "string option \<Rightarrow> bool \<times> notice list" where
  "validateExtraJson el =
     (let raw = getExtraJson el in
      if raw = [] then (True, [])
      else case JSON_parse raw of
             None \<Rightarrow> (False, [InvalidExtraJson])
           | Some parsed \<Rightarrow>
               if typeof parsed \<noteq> ''object'' \<or> Array_isArray parsed
               then (False, [ExtraJsonNotObject])
               else (True, []))"

subsection \<open>Saving\<close>

text \<open>
  The body of a \<^verbatim>\<open>POST /api/save-connection\<close> request. \<open>req_extra_json\<close> is
  \<open>None\<close> when the body has no such property; \<open>req_id\<close> is \<open>None\<close> when the
  property is \<^verbatim>\<open>null\<close> or absent.
\<close>

record save_request =
  req_name :: string
  req_type :: string
  req_fields :: "string js_object"
  req_extra_json :: "string option"
  req_group :: string
  req_id :: "string option"

text \<open>
  The loop of \<^verbatim>\<open>saveConnection\<close> over the fields of the template. Reading the value
  of an input that does not exist throws, which ends the function: the result is
  \<open>None\<close>. A \<^verbatim>\<open>return\<close> inside the callback only ends the visit of that field.
\<close>

record collect_state =
  isValid :: bool
  collected :: "string js_object"
  shown :: "notice list"

fun collect_fields ::
  "string \<Rightarrow> input_el js_object \<Rightarrow> field_spec list \<Rightarrow> collect_state \<Rightarrow> collect_state option" where
  "collect_fields cid inputs [] st = Some st"
| "collect_fields cid inputs (field # rest) st =
     (case obj_get inputs (field_name field) of
        None \<Rightarrow> None
      | Some input \<Rightarrow>
          if cid \<noteq> [] \<and> field_type field = ''password'' \<and> input_value input = []
          then collect_fields cid inputs rest
                 (st\<lparr>collected := obj_set (collected st) (field_name field) (input_value input)\<rparr>)
          else if field_required field \<and> input_value input = []
          then collect_fields cid inputs rest
                 (st\<lparr>isValid := False, shown := shown st @ [FieldRequired (field_label field)]\<rparr>)
          else collect_fields cid inputs rest
                 (st\<lparr>collected := obj_set (collected st) (field_name field) (input_value input)\<rparr>))"

text \<open>
  \<^verbatim>\<open>saveConnection()\<close> up to the request: it is refused with the messages shown, it
  throws, or the request is sent.
\<close>

datatype save_outcome = Refused "notice list" | Threw | Sent save_request

definition saveConnection :: "connection_form \<Rightarrow> save_outcome" where
  "saveConnection form =
     (if connectionName form = [] then Refused [EnterConnectionName]
      else if databaseType form = [] then Refused [SelectDatabaseType]
      else if \<not> fst (validateExtraJson (extraJson form))
      then Refused (snd (validateExtraJson (extraJson form)))
      else case obj_get DATABASE_CONFIGS (databaseType form) of
             None \<Rightarrow> Threw
           | Some config \<Rightarrow>
               (case collect_fields (connectionId form) (field_inputs form) (config_fields config)
                       \<lparr>isValid = True, collected = [], shown = []\<rparr> of
                  None \<Rightarrow> Threw
                | Some st \<Rightarrow>
                    if \<not> isValid st then Refused (shown st)
                    else Sent
                      \<lparr>req_name = connectionName form,
                       req_type = databaseType form,
                       req_fields = collected st,
                       req_extra_json = Some (getExtraJson (extraJson form)),
                       req_group = (case groupName form of None \<Rightarrow> [] | Some g \<Rightarrow> trim g),
                       req_id = (if connectionId form = [] then None else Some (connectionId form))\<rparr>))"

subsection \<open>Folders\<close>

text \<open>
  The click handler of the folder button: \<^verbatim>\<open>prompt\<close> gives \<^verbatim>\<open>null\<close> when the
  user cancels. The result is the request posted, if any.
\<close>

definition addFolder_click :: "string option \<Rightarrow> save_request option" where
  "addFolder_click prompt_result =
     (case prompt_result of
        None \<Rightarrow> None
      | Some folderName \<Rightarrow>
          if folderName \<noteq> [] \<and> trim folderName \<noteq> []
          then Some \<lparr>req_name = trim folderName, req_type = ''folder'', req_fields = [],
                      req_extra_json = None, req_group = trim folderName, req_id = None\<rparr>
          else None)"

subsection \<open>Editing\<close>

text \<open>
  \<^verbatim>\<open>editConnection(dbKey)\<close> resets the dialog, copies the key, the name and the group
  of the cached entry into it, selects the engine kind, renders the inputs of that kind
  and fills them from the entry's fields. An input of type \<^verbatim>\<open>password\<close> only gets a
  placeholder. The result is the dialog's state, or \<open>None\<close> when the key is not cached.
  The title, the delete button, the Extra JSON textarea and the information message are
  not part of the result.
\<close>

fun prefill :: "(string \<times> string) list \<Rightarrow> input_el js_object \<Rightarrow> input_el js_object" where
  "prefill [] inputs = inputs"
| "prefill ((k, v) # rest) inputs =
     (case obj_get inputs k of
        None \<Rightarrow> prefill rest inputs
      | Some input \<Rightarrow>
          if input_type input = ''password''
          then prefill rest
                 (obj_set inputs k (input\<lparr>input_placeholder := ''Leave blank to keep unchanged''\<rparr>))
          else prefill rest (obj_set inputs k (input\<lparr>input_value := v\<rparr>)))"

text \<open>Every input of type \<^verbatim>\<open>password\<close> is empty.\<close>

definition passwords_blank :: "input_el js_object \<Rightarrow> bool" where
  "passwords_blank inputs =
     list_all (\<lambda>(n, inp). input_type inp = ''password'' \<longrightarrow> input_value inp = []) inputs"

record edit_form =
  edit_connectionId :: string
  edit_connectionName :: string
  edit_groupName :: string
  edit_databaseType :: string
  edit_inputs :: "input_el js_object"

definition editConnection :: "string list \<Rightarrow> databases \<Rightarrow> string \<Rightarrow> edit_form option" where
  "editConnection options dbs dbKey =
     (case obj_get dbs dbKey of
        None \<Rightarrow> None
      | Some db \<Rightarrow>
          Some \<lparr>edit_connectionId = dbKey,
                edit_connectionName = db_name db,
                edit_groupName = (case db_group db of None \<Rightarrow> [] | Some g \<Rightarrow> g),
                edit_databaseType = (if db_engine db \<in> set options then db_engine db else []),
                edit_inputs =
                  (case db_fields db of
                     None \<Rightarrow> renderDynamicFields (db_engine db)
                   | Some fs \<Rightarrow> prefill (Object_entries fs) (renderDynamicFields (db_engine db)))\<rparr>)"

subsection \<open>The stored fields of a connection\<close>

text \<open>
  Modelled from the spec: the registry's \<^verbatim>\<open>update(user, id, spec)\<close> runs on the
  server and is not among the sources. The spec says of it that password-typed fields
  left blank in the request mean "keep existing encrypted value" and are never
  overwritten with empty. \<open>store n v\<close> is the stored form of the value \<open>v\<close> of field
  \<open>n\<close> (the ciphertext, for a sensitive field), \<open>password_typed\<close> tells the
  password-typed fields; every other field of the request replaces the stored one.
\<close>

definition update_fields ::
  "(string \<Rightarrow> string \<Rightarrow> 'c) \<Rightarrow> (string \<Rightarrow> bool) \<Rightarrow> (string \<times> 'c) list \<Rightarrow> string js_object
   \<Rightarrow> (string \<times> 'c) list" where
  "update_fields store password_typed stored request_fields =
     foldl (\<lambda>acc (n, v). if password_typed n \<and> v = [] then acc else obj_set acc n (store n v))
       stored request_fields"

section \<open>The fetch wrapper\<close>











section \<open>The sidebar\<close>

text \<open>
  \<^verbatim>\<open>db.group || ""\<close> and \<^verbatim>\<open>db.order || 0\<close>: a missing group counts as the empty
  name, a missing order as zero.
\<close>

definition group_or_empty :: "db_entry \<Rightarrow> string" where
  "group_or_empty db = (case db_group db of None \<Rightarrow> [] | Some g \<Rightarrow> g)"

definition order_or_zero :: "db_entry \<Rightarrow> int" where
  "order_or_zero db = (case db_order db of None \<Rightarrow> 0 | Some n \<Rightarrow> n)"

text \<open>
  \<^verbatim>\<open>groups\<close> starts as the plain object \<^verbatim>\<open>{}\<close> and its keys are group names,
  which users type. Reading \<^verbatim>\<open>groups[name]\<close> gives the array stored under the name,
  or, for a name that every object inherits from \<^verbatim>\<open>Object.prototype\<close>, the inherited
  value (a function, or the prototype itself for \<^verbatim>\<open>__proto__\<close>), or
  \<^verbatim>\<open>undefined\<close>. Arrays and inherited values are truthy; an inherited value has no
  \<^verbatim>\<open>push\<close>.
\<close>

definition inherited_names :: "string list" where
  "inherited_names =
     [''constructor'', ''__defineGetter__'', ''__defineSetter__'', ''hasOwnProperty'',
      ''__lookupGetter__'', ''__lookupSetter__'', ''isPrototypeOf'', ''propertyIsEnumerable'',
      ''toString'', ''valueOf'', ''__proto__'', ''toLocaleString'']"

datatype 'v property = Own 'v | Inherited | Missing

definition get_property :: "'v js_object \<Rightarrow> string \<Rightarrow> 'v property" where
  "get_property obj k =
     (case obj_get obj k of
        Some v \<Rightarrow> Own v
      | None \<Rightarrow> if k \<in> set inherited_names then Inherited else Missing)"

text \<open>\<^verbatim>\<open>if (!groups[name]) groups[name] = [];\<close>\<close>

definition ensure_group :: "db_entry list js_object \<Rightarrow> string \<Rightarrow> db_entry list js_object" where
  "ensure_group groups k =
     (case get_property groups k of
        Missing \<Rightarrow> obj_set groups k []
      | _ \<Rightarrow> groups)"

text \<open>\<^verbatim>\<open>db.group || db.name\<close>, the group that a folder marker stands for.\<close>

definition folder_group :: "db_entry \<Rightarrow> string" where
  "folder_group db = (if group_or_empty db \<noteq> [] then group_or_empty db else db_name db)"

text \<open>
  The first loop of \<^verbatim>\<open>renderDatabaseList\<close> visits the cached entries and sorts them
  into \<^verbatim>\<open>groups\<close> and the array \<^verbatim>\<open>ungrouped\<close>. An entry of engine
  \<^verbatim>\<open>folder\<close> only makes sure that its group exists. A connection with a group is
  pushed onto the array of the group; where \<^verbatim>\<open>groups[db.group]\<close> is an inherited
  value the call of \<^verbatim>\<open>push\<close> throws, which ends the loop and the function: the
  result is \<open>None\<close>.
\<close>

definition place ::
  "db_entry list js_object \<times> db_entry list \<Rightarrow> db_entry
   \<Rightarrow> (db_entry list js_object \<times> db_entry list) option" where
  "place acc db =
     (case acc of (groups, ungrouped) \<Rightarrow>
        if db_engine db = ''folder''
        then Some (ensure_group groups (folder_group db), ungrouped)
        else if group_or_empty db \<noteq> []
        then (case get_property (ensure_group groups (group_or_empty db)) (group_or_empty db) of
                Own items \<Rightarrow>
                  Some (obj_set (ensure_group groups (group_or_empty db)) (group_or_empty db)
                          (items @ [db]),
                        ungrouped)
              | _ \<Rightarrow> None)
        else Some (groups, ungrouped @ [db]))"

fun place_all ::
  "db_entry list js_object \<times> db_entry list \<Rightarrow> db_entry list
   \<Rightarrow> (db_entry list js_object \<times> db_entry list) option" where
  "place_all acc [] = Some acc"
| "place_all acc (db # rest) =
     (case place acc db of None \<Rightarrow> None | Some acc' \<Rightarrow> place_all acc' rest)"

text \<open>
  \<^verbatim>\<open>Array.prototype.sort\<close> with \<^verbatim>\<open>sortFn\<close> is a stable sort by
  \<open>order_or_zero\<close>; without a comparison function it sorts strings by their code
  units. The second loop sorts the array of each group in place, visiting the group
  names in sorted order.
\<close>

definition sort_group :: "db_entry list js_object \<Rightarrow> string \<Rightarrow> db_entry list js_object" where
  "sort_group groups k =
     (case obj_get groups k of
        None \<Rightarrow> groups
      | Some items \<Rightarrow> obj_set groups k (sort_key order_or_zero items))"

definition sort_groups :: "db_entry list js_object \<Rightarrow> db_entry list js_object" where
  "sort_groups groups = foldl sort_group groups (sort (Object_keys groups))"

text \<open>
  What \<^verbatim>\<open>renderDatabaseList\<close> draws: the note that nothing is configured, or the
  root section with its database items followed by one section per group, each with
  its name and its database items (none: the section shows \<^verbatim>\<open>Empty Folder\<close>). The
  sections are drawn in the order of \<^verbatim>\<open>Object.keys(groups)\<close>. When the first loop
  throws, the function ends before it draws and the list stays as it was.
\<close>

record sidebar =
  root_items :: "db_entry list"
  group_sections :: "(string \<times> db_entry list) list"

datatype sidebar_view = NoDatabases | Sidebar sidebar | RenderThrew

definition renderDatabaseList :: "databases \<Rightarrow> sidebar_view" where
  "renderDatabaseList dbs =
     (if Object_keys dbs = [] then NoDatabases
      else case place_all ([], []) (Object_values dbs) of
             None \<Rightarrow> RenderThrew
           | Some (groups, ungrouped) \<Rightarrow>
               Sidebar \<lparr>root_items = sort_key order_or_zero ungrouped,
                        group_sections = Object_entries (sort_groups groups)\<rparr>)"

text \<open>Every database item that a view shows.\<close>

definition shown_items :: "sidebar \<Rightarrow> db_entry list" where
  "shown_items sb = root_items sb @ concat (map snd (group_sections sb))"

text \<open>No entry of the list is a folder marker.\<close>

definition no_folder :: "db_entry list \<Rightarrow> bool" where
  "no_folder items = list_all (\<lambda>d. db_engine d \<noteq> ''folder'') items"

definition groups_no_folder :: "db_entry list js_object \<Rightarrow> bool" where
  "groups_no_folder groups = list_all (\<lambda>(g, items). no_folder items) groups"

section \<open>Reordering\<close>












section \<open>Status checks\<close>

text \<open>
  On \<^verbatim>\<open>DOMContentLoaded\<close> the script registers one interval timer with
  \<^verbatim>\<open>setInterval\<close>: its delay in milliseconds and what its callback emits on the
  socket, given the cache at the time of the tick. The handler of
  \<^verbatim>\<open>db_status_update\<close> passes the event's key and status to
  \<^verbatim>\<open>updateDatabaseStatus\<close>.
\<close>

datatype socket_emit = Emit string string

definition status_tick :: "databases \<Rightarrow> socket_emit list" where
  "status_tick dbs = map (Emit ''check_status'') (Object_keys dbs)"

definition interval_timers :: "(nat \<times> (databases \<Rightarrow> socket_emit list)) list" where
  "interval_timers = [(5000, status_tick)]"

record status_event =
  ev_db_key :: string
  ev_status :: status

definition on_db_status_update :: "status_event \<Rightarrow> databases \<Rightarrow> databases" where
  "on_db_status_update ev dbs = updateDatabaseStatus (ev_db_key ev) (ev_status ev) dbs"

section \<open>Escaping of rendered text\<close>

text \<open>
  \<^verbatim>\<open>escapeHtml(text)\<close> replaces every match of \<^verbatim>\<open>/[&<>"']/g\<close> by its entry in the
  replacement table; a global replace with single-character matches is a map over the
  characters.
\<close>

definition escape_char :: "char \<Rightarrow> string" where
  "escape_char c =
     (if c = CHR ''&'' then ''&amp;''
      else if c = CHR ''<'' then ''&lt;''
      else if c = CHR ''>'' then ''&gt;''
      else if c = CHR 0x22 then ''&quot;''
      else if c = CHR 0x27 then ''&#039;''
      else [c])"

definition escapeHtml :: "string \<Rightarrow> string" where
  "escapeHtml text = concat (map escape_char text)"

definition entities :: "string list" where
  "entities = [''&amp;'', ''&lt;'', ''&gt;'', ''&quot;'', ''&#039;'']"

definition specials :: "char list" where
  "specials = [CHR ''<'', CHR ''>'', CHR 0x22, CHR 0x27]"

text \<open>
  An ampersand at position \<open>i\<close> begins an entity when one of the five entities is the
  text from \<open>i\<close> on.
\<close>

definition begins_entity :: "string \<Rightarrow> nat \<Rightarrow> bool" where
  "begins_entity s i = list_ex (\<lambda>e. take (length e) (drop i s) = e) entities"

text \<open>Every ampersand of the text begins an entity.\<close>

definition amp_ok :: "string \<Rightarrow> bool" where
  "amp_ok s = list_all (\<lambda>i. s ! i = CHR ''&'' \<longrightarrow> begins_entity s i) [0..<length s]"

section \<open>Table cells of query results and table previews\<close>

text \<open>
  \<^verbatim>\<open>renderQueryResults\<close> and \<^verbatim>\<open>renderTablePreview\<close> compute the content of each
  data cell by the same expression:
  \<^verbatim>\<open>value === null ? '<em style="color: #999;">NULL</em>' : escapeHtml(String(value)).substring(0, 100)\<close>.
  A cell value is \<^verbatim>\<open>null\<close>, \<^verbatim>\<open>undefined\<close> (the row has no such property) or any
  other value; the conversion \<^verbatim>\<open>String(value)\<close> of the runtime is the parameter
  \<open>String_js\<close> on the other values. \<^verbatim>\<open>substring(0, 100)\<close> is \<^term>\<open>take 100\<close>.
  The functions below give the texts of the \<^verbatim>\<open><td>\<close> elements, row by row.
\<close>

datatype 'v cell = JsNull | JsUndefined | JsValue 'v

definition ToString :: "('v \<Rightarrow> string) \<Rightarrow> 'v cell \<Rightarrow> string" where
  "ToString String_js c =
     (case c of JsNull \<Rightarrow> ''null'' | JsUndefined \<Rightarrow> ''undefined'' | JsValue v \<Rightarrow> String_js v)"

definition null_markup :: string where
  "null_markup = ''<em style='' @ [CHR 0x22] @ ''color: #999;'' @ [CHR 0x22] @ ''>NULL</em>''"

definition displayValue :: "('v \<Rightarrow> string) \<Rightarrow> 'v cell \<Rightarrow> string" where
  "displayValue String_js c =
     (if c = JsNull then null_markup else take 100 (escapeHtml (ToString String_js c)))"

definition row_get :: "'v cell js_object \<Rightarrow> string \<Rightarrow> 'v cell" where
  "row_get row col = (case obj_get row col of None \<Rightarrow> JsUndefined | Some c \<Rightarrow> c)"

record column =
  col_name :: string
  col_type :: string
  nullable :: bool

definition queryResults_cells ::
  "('v \<Rightarrow> string) \<Rightarrow> string list \<Rightarrow> 'v cell js_object list \<Rightarrow> string list list" where
  "queryResults_cells String_js columns rows =
     map (\<lambda>row. map (\<lambda>col. displayValue String_js (row_get row col)) columns) rows"

definition tablePreview_cells ::
  "('v \<Rightarrow> string) \<Rightarrow> column list \<Rightarrow> 'v cell js_object list \<Rightarrow> string list list" where
  "tablePreview_cells String_js columns rows =
     map (\<lambda>row. map (\<lambda>col. displayValue String_js (row_get row (col_name col))) columns) rows"

text \<open>On a value that is a string already, \<^verbatim>\<open>String(value)\<close> is the value.\<close>

definition String_of_text :: "string \<Rightarrow> string" where
  "String_of_text s = s"

section \<open>Example inputs\<close>

text \<open>
  A dialog as a user leaves it: the inputs rendered for the kind, with the values typed
  into some of them, a connection key (empty for a new connection) and the text of the
  Extra JSON textarea.
\<close>

definition typed_inputs :: "string \<Rightarrow> (string \<times> string) list \<Rightarrow> input_el js_object" where
  "typed_inputs kind typed =
     map (\<lambda>(n, inp). (n, case map_of typed n of None \<Rightarrow> inp | Some v \<Rightarrow> inp\<lparr>input_value := v\<rparr>))
       (renderDynamicFields kind)"

definition typed_form ::
  "string \<Rightarrow> string \<Rightarrow> (string \<times> string) list \<Rightarrow> string \<Rightarrow> connection_form" where
  "typed_form cid kind typed extra =
     \<lparr>connectionName = ''pg1'', databaseType = kind, type_options = map fst DATABASE_CONFIGS,
      connectionId = cid, groupName = Some [], extraJson = Some extra,
      field_inputs = typed_inputs kind typed\<rparr>"

text \<open>A cache of two connections and a folder marker.\<close>

definition example_databases :: databases where
  "example_databases =
     [(''k1'', \<lparr>db_key = ''k1'', db_name = ''pg1'', db_engine = ''postgresql'',
               db_fields = Some [(''host'', ''localhost''), (''port'', ''5432''),
                                 (''username'', ''u''), (''password'', ''secret''),
                                 (''database'', ''d'')],
               db_group = Some ''Prod'', db_order = Some 1, db_status = None\<rparr>),
      (''k2'', \<lparr>db_key = ''k2'', db_name = ''files'', db_engine = ''sqlite'',
               db_fields = Some [(''filePath'', ''./data/database.db'')],
               db_group = None, db_order = Some 0, db_status = None\<rparr>),
      (''k3'', \<lparr>db_key = ''k3'', db_name = ''Prod'', db_engine = ''folder'',
               db_fields = Some [], db_group = Some ''Prod'', db_order = None,
               db_status = None\<rparr>)]"


text \<open>A cache whose first connection is in group B and whose second is in group A.\<close>

definition two_group_databases :: databases where
  "two_group_databases =
     [(''k1'', \<lparr>db_key = ''k1'', db_name = ''first'', db_engine = ''postgresql'',
               db_fields = None, db_group = Some ''B'', db_order = Some 0, db_status = None\<rparr>),
      (''k2'', \<lparr>db_key = ''k2'', db_name = ''second'', db_engine = ''mysql'',
               db_fields = None, db_group = Some ''A'', db_order = Some 0, db_status = None\<rparr>)]"

text \<open>A cache that holds the marker of a folder named \<^verbatim>\<open>constructor\<close>.\<close>

definition constructor_folder :: db_entry where
  "constructor_folder =
     \<lparr>db_key = ''k1'', db_name = ''constructor'', db_engine = ''folder'', db_fields = Some [],
      db_group = Some ''constructor'', db_order = None, db_status = None\<rparr>"

section \<open>Facts about objects\<close>

lemma obj_get_obj_set:
  "obj_get (obj_set obj k v) k' = (if k' = k then Some v else obj_get obj k')"
  by (induction obj) (auto simp: obj_get_def)

lemma map_fst_obj_set_present:
  "obj_get obj k \<noteq> None \<Longrightarrow> map fst (obj_set obj k v) = map fst obj"
  by (induction obj) (auto simp: obj_get_def)

section \<open>Status updates keep the rest of the cache\<close>

text \<open>
  C10. For every \<^verbatim>\<open>db_status_update\<close> event, \<^verbatim>\<open>updateDatabaseStatus\<close> changes only
  the status of the entry stored under the event's key: the keys and their order stay,
  every other entry stays, the entry itself differs from the old one in its status
  alone, and when the key is not in the cache the cache is unchanged.
\<close>

theorem updateDatabaseStatus_frame:
  "(obj_get dbs dbKey = None \<longrightarrow> updateDatabaseStatus dbKey st dbs = dbs)
   \<and> map fst (updateDatabaseStatus dbKey st dbs) = map fst dbs
   \<and> (\<forall>k. k \<noteq> dbKey \<longrightarrow> obj_get (updateDatabaseStatus dbKey st dbs) k = obj_get dbs k)
   \<and> (\<forall>db. obj_get dbs dbKey = Some db \<longrightarrow>
         (\<exists>db'. obj_get (updateDatabaseStatus dbKey st dbs) dbKey = Some db'
            \<and> db_status db' = Some st
            \<and> db'\<lparr>db_status := db_status db\<rparr> = db))"
  by (auto simp: updateDatabaseStatus_def obj_get_obj_set map_fst_obj_set_present
      split: option.splits)

theorem updateDatabaseStatus_frame_witness:
  "obj_get
     (updateDatabaseStatus ''k1'' \<lparr>connected = True, error_text = None\<rparr>
        [(''k1'', \<lparr>db_key = ''k1'', db_name = ''pg1'', db_engine = ''postgresql'', db_fields = None,
                   db_group = None, db_order = Some 0, db_status = None\<rparr>),
         (''k2'', \<lparr>db_key = ''k2'', db_name = ''my'', db_engine = ''mysql'', db_fields = None,
                   db_group = Some ''Prod'', db_order = Some 1, db_status = None\<rparr>)]) ''k2''
   = Some \<lparr>db_key = ''k2'', db_name = ''my'', db_engine = ''mysql'', db_fields = None,
            db_group = Some ''Prod'', db_order = Some 1, db_status = None\<rparr>
   \<and> map fst
     (updateDatabaseStatus ''k1'' \<lparr>connected = True, error_text = None\<rparr>
        [(''k1'', \<lparr>db_key = ''k1'', db_name = ''pg1'', db_engine = ''postgresql'', db_fields = None,
                   db_group = None, db_order = Some 0, db_status = None\<rparr>),
         (''k2'', \<lparr>db_key = ''k2'', db_name = ''my'', db_engine = ''mysql'', db_fields = None,
                   db_group = Some ''Prod'', db_order = Some 1, db_status = None\<rparr>)])
   = [''k1'', ''k2'']
   \<and> updateDatabaseStatus ''k9'' \<lparr>connected = True, error_text = None\<rparr>
        [(''k1'', \<lparr>db_key = ''k1'', db_name = ''pg1'', db_engine = ''postgresql'', db_fields = None,
                   db_group = None, db_order = Some 0, db_status = None\<rparr>)]
   = [(''k1'', \<lparr>db_key = ''k1'', db_name = ''pg1'', db_engine = ''postgresql'', db_fields = None,
                   db_group = None, db_order = Some 0, db_status = None\<rparr>)]"
  using updateDatabaseStatus_frame
    [of "[(''k1'', \<lparr>db_key = ''k1'', db_name = ''pg1'', db_engine = ''postgresql'', db_fields = None,
                   db_group = None, db_order = Some 0, db_status = None\<rparr>),
         (''k2'', \<lparr>db_key = ''k2'', db_name = ''my'', db_engine = ''mysql'', db_fields = None,
                   db_group = Some ''Prod'', db_order = Some 1, db_status = None\<rparr>)]"
        "''k1''" "\<lparr>connected = True, error_text = None\<rparr>"]
    updateDatabaseStatus_frame
    [of "[(''k1'', \<lparr>db_key = ''k1'', db_name = ''pg1'', db_engine = ''postgresql'', db_fields = None,
                   db_group = None, db_order = Some 0, db_status = None\<rparr>)]"
        "''k9''" "\<lparr>connected = True, error_text = None\<rparr>"]
  by (simp add: obj_get_def)

section \<open>Escaped text\<close>

lemma escape_char_cases:
  "escape_char c \<in> set entities
   \<or> (escape_char c = [c] \<and> c \<noteq> CHR ''&'' \<and> c \<notin> set specials)"
  by (simp add: escape_char_def entities_def specials_def)

lemma entity_facts:
  assumes "e \<in> set entities"
  shows "e \<noteq> []" and "hd e = CHR ''&''"
    and "set (tl e) \<inter> set (CHR ''&'' # specials) = {}"
  using assms by (auto simp: entities_def specials_def)

lemma amp_ok_iff:
  "amp_ok s \<longleftrightarrow> (\<forall>i < length s. s ! i = CHR ''&'' \<longrightarrow> begins_entity s i)"
  by (auto simp: amp_ok_def list_all_iff)

lemma begins_entity_shift:
  "length p \<le> i \<Longrightarrow> begins_entity (p @ s) i = begins_entity s (i - length p)"
  by (simp add: begins_entity_def)

lemma amp_ok_entity:
  assumes "e \<in> set entities" "amp_ok s"
  shows "amp_ok (e @ s)"
  unfolding amp_ok_iff
proof (intro allI impI)
  fix i assume i: "i < length (e @ s)" and amp: "(e @ s) ! i = CHR ''&''"
  consider "i = 0" | "0 < i" "i < length e" | "length e \<le> i" by linarith
  then show "begins_entity (e @ s) i"
  proof cases
    case 1
    then show ?thesis
      using assms(1) by (auto simp: begins_entity_def list_ex_iff intro!: bexI[of _ e])
  next
    case 2
    then obtain j where j: "i = Suc j" "j < length (tl e)"
      by (cases i) auto
    then have "e ! i \<in> set (tl e)"
      using entity_facts(1)[OF assms(1)] by (cases e) auto
    moreover have "e ! i = CHR ''&''" using amp 2 by (simp add: nth_append)
    ultimately show ?thesis using entity_facts(3)[OF assms(1)] by auto
  next
    case 3
    then have "s ! (i - length e) = CHR ''&''" "i - length e < length s"
      using amp i by (auto simp: nth_append)
    then have "begins_entity s (i - length e)" using assms(2) by (simp add: amp_ok_iff)
    then show ?thesis using 3 by (simp add: begins_entity_shift)
  qed
qed

lemma amp_ok_plain:
  assumes "c \<noteq> CHR ''&''" "amp_ok s"
  shows "amp_ok (c # s)"
  unfolding amp_ok_iff
proof (intro allI impI)
  fix i assume i: "i < length (c # s)" and amp: "(c # s) ! i = CHR ''&''"
  then obtain j where j: "i = Suc j" using assms(1) by (cases i) auto
  then have "begins_entity s j" using i amp assms(2) by (simp add: amp_ok_iff)
  then show "begins_entity (c # s) i" using j by (simp add: begins_entity_def)
qed

lemma amp_ok_escapeHtml: "amp_ok (escapeHtml t)"
proof (induction t)
  case Nil
  then show ?case by (simp add: escapeHtml_def amp_ok_def)
next
  case (Cons c t)
  have eq: "escapeHtml (c # t) = escape_char c @ escapeHtml t" by (simp add: escapeHtml_def)
  from escape_char_cases[of c] show ?case
  proof
    assume "escape_char c \<in> set entities"
    then show ?thesis using Cons eq amp_ok_entity by simp
  next
    assume "escape_char c = [c] \<and> c \<noteq> CHR ''&'' \<and> c \<notin> set specials"
    then show ?thesis using Cons eq amp_ok_plain by simp
  qed
qed

lemma escape_char_no_special: "set (escape_char c) \<inter> set specials = {}"
  by (simp add: escape_char_def specials_def)

lemma escapeHtml_no_special: "set (escapeHtml t) \<inter> set specials = {}"
  using escape_char_no_special by (induction t) (auto simp: escapeHtml_def)

lemma take_no_special: "set xs \<inter> set specials = {} \<Longrightarrow> set (take n xs) \<inter> set specials = {}"
  using set_take_subset[of n xs] by blast

text \<open>
  C9, as the code has it. The output of \<^verbatim>\<open>escapeHtml\<close> holds none of the characters
  less-than, greater-than, double quote and single quote, and each of its ampersands
  begins one of the five entities. Every data cell of a query result and of a table
  preview is \<^verbatim>\<open>displayValue\<close> of the row's value for the column; for a value other
  than \<^verbatim>\<open>null\<close> that is the escaped text of the value cut to its first 100
  characters, which has at most 100 characters and none of the four characters; a
  \<^verbatim>\<open>null\<close> value is shown as the fixed NULL markup instead.
\<close>

theorem escapeHtml_cells:
  "set (escapeHtml t) \<inter> set specials = {}
   \<and> amp_ok (escapeHtml t)
   \<and> (i < length rows \<and> j < length columns \<longrightarrow>
        queryResults_cells String_js columns rows ! i ! j
          = displayValue String_js (row_get (rows ! i) (columns ! j)))
   \<and> (i < length rows \<and> j < length pcolumns \<longrightarrow>
        tablePreview_cells String_js pcolumns rows ! i ! j
          = displayValue String_js (row_get (rows ! i) (col_name (pcolumns ! j))))
   \<and> (v \<noteq> JsNull \<longrightarrow>
        displayValue String_js v = take 100 (escapeHtml (ToString String_js v))
        \<and> length (displayValue String_js v) \<le> 100
        \<and> set (displayValue String_js v) \<inter> set specials = {})
   \<and> displayValue String_js JsNull = null_markup"
  by (simp add: escapeHtml_no_special amp_ok_escapeHtml queryResults_cells_def
      tablePreview_cells_def displayValue_def take_no_special)

theorem escapeHtml_cells_witness:
  "escapeHtml (''a<b & '' @ [CHR 0x22] @ ''c'' @ [CHR 0x27]) = ''a&lt;b &amp; &quot;c&#039;''
   \<and> amp_ok (escapeHtml (''a<b & '' @ [CHR 0x22] @ ''c'' @ [CHR 0x27]))
   \<and> queryResults_cells (\<lambda>s. s) [''c1'', ''c2'']
         [[(''c1'', JsValue ''<b>x</b>''), (''c2'', JsNull)]] ! 0 ! 0 = ''&lt;b&gt;x&lt;/b&gt;''
   \<and> tablePreview_cells (\<lambda>s. s) [\<lparr>col_name = ''c1'', col_type = ''text'', nullable = True\<rparr>]
         [[(''c1'', JsValue ''<b>x</b>''), (''c2'', JsNull)]] ! 0 ! 0 = ''&lt;b&gt;x&lt;/b&gt;''
   \<and> length (displayValue (\<lambda>s. s) (JsValue (replicate 150 CHR ''<''))) \<le> 100
   \<and> displayValue (\<lambda>s. s) (JsValue ''<b>x</b>'') = ''&lt;b&gt;x&lt;/b&gt;''"
  using escapeHtml_cells
    [of "''a<b & '' @ [CHR 0x22] @ ''c'' @ [CHR 0x27]" 0
        "[[(''c1'', JsValue ''<b>x</b>''), (''c2'', JsNull)]]" 0 "[''c1'', ''c2'']"
        "\<lambda>s. s" "[\<lparr>col_name = ''c1'', col_type = ''text'', nullable = True\<rparr>]"
        "JsValue (replicate 150 CHR ''<'')"]
  by (simp add: escapeHtml_def escape_char_def row_get_def obj_get_def displayValue_def
      ToString_def)

text \<open>
  The claim as it was written fails for a \<^verbatim>\<open>null\<close> cell: its text is the NULL markup,
  which holds a less-than sign and so is no output of \<^verbatim>\<open>escapeHtml\<close>.
\<close>

theorem null_cell_not_escaped:
  "queryResults_cells String_of_text [''c''] [[(''c'', JsNull)]] = [[null_markup]]
   \<and> CHR ''<'' \<in> set null_markup
   \<and> null_markup \<noteq> take 100 (escapeHtml (ToString String_of_text JsNull))"
  by (simp add: queryResults_cells_def displayValue_def row_get_def obj_get_def
      null_markup_def ToString_def escapeHtml_def escape_char_def)

section \<open>Facts about the connection form\<close>

lemma map_fst_obj_set:
  "map fst (obj_set xs k v) = (if k \<in> fst ` set xs then map fst xs else map fst xs @ [k])"
  by (induction xs) force+

lemma distinct_obj_set: "distinct (map fst xs) \<Longrightarrow> distinct (map fst (obj_set xs k v))"
  by (simp add: map_fst_obj_set)

lemma collect_fields_valid:
  "collect_fields cid inputs fs st = Some st' \<Longrightarrow> isValid st' \<Longrightarrow>
     isValid st \<and>
     (\<forall>f \<in> set fs. \<exists>inp. obj_get inputs (field_name f) = Some inp \<and>
        (field_required f \<longrightarrow> input_value inp \<noteq> [] \<or> (cid \<noteq> [] \<and> field_type f = ''password'')))"
proof (induction fs arbitrary: st)
  case Nil
  then show ?case by simp
next
  case (Cons f fs)
  then show ?case
    by (fastforce split: option.splits if_splits)
qed

lemma collect_fields_accepts:
  assumes "\<forall>f \<in> set fs. \<exists>inp. obj_get inputs (field_name f) = Some inp \<and>
        (field_required f \<longrightarrow> input_value inp \<noteq> [] \<or> (cid \<noteq> [] \<and> field_type f = ''password''))"
  shows "\<exists>st'. collect_fields cid inputs fs st = Some st' \<and> isValid st' = isValid st
     \<and> shown st' = shown st
     \<and> (distinct (map fst (collected st)) \<longrightarrow> distinct (map fst (collected st')))
     \<and> (\<forall>n. obj_get (collected st') n =
            (if n \<in> field_name ` set fs then map_option input_value (obj_get inputs n)
             else obj_get (collected st) n))"
  using assms
proof (induction fs arbitrary: st)
  case Nil
  then show ?case by simp
next
  case (Cons f fs)
  from Cons.prems obtain inp where inp: "obj_get inputs (field_name f) = Some inp"
    and ok: "field_required f \<longrightarrow> input_value inp \<noteq> [] \<or> (cid \<noteq> [] \<and> field_type f = ''password'')"
    by auto
  let ?st1 = "st\<lparr>collected := obj_set (collected st) (field_name f) (input_value inp)\<rparr>"
  have step: "collect_fields cid inputs (f # fs) st = collect_fields cid inputs fs ?st1"
    using inp ok by auto
  from Cons.prems have rest: "\<forall>f \<in> set fs. \<exists>inp. obj_get inputs (field_name f) = Some inp \<and>
        (field_required f \<longrightarrow> input_value inp \<noteq> [] \<or> (cid \<noteq> [] \<and> field_type f = ''password''))"
    by simp
  from Cons.IH[OF rest, of ?st1] obtain st' where
    st': "collect_fields cid inputs fs ?st1 = Some st'" "isValid st' = isValid ?st1"
      "shown st' = shown ?st1"
      "distinct (map fst (collected ?st1)) \<longrightarrow> distinct (map fst (collected st'))"
      "\<forall>n. obj_get (collected st') n =
            (if n \<in> field_name ` set fs then map_option input_value (obj_get inputs n)
             else obj_get (collected ?st1) n)"
    by blast
  show ?case
    using st' step inp by (auto simp: distinct_obj_set obj_get_obj_set)
qed

lemma update_fields_keeps_blank:
  assumes "password_typed n" "\<forall>v. (n, v) \<in> set req \<longrightarrow> v = []"
  shows "obj_get (update_fields store password_typed stored req) n = obj_get stored n"
  using assms(2) unfolding update_fields_def
  by (induction req arbitrary: stored) (auto simp: obj_get_obj_set assms(1))

lemma update_fields_never_empty:
  assumes "password_typed n"
  shows "obj_get (update_fields store password_typed stored req) n = obj_get stored n
     \<or> (\<exists>v. v \<noteq> [] \<and> obj_get (update_fields store password_typed stored req) n = Some (store n v))"
  unfolding update_fields_def
proof (induction req rule: rev_induct)
  case Nil
  then show ?case by simp
next
  case (snoc x req)
  then show ?case using assms by (cases x) (auto simp: obj_get_obj_set)
qed

lemma passwords_blank_obj_set:
  "passwords_blank inputs \<Longrightarrow> (input_type inp = ''password'' \<longrightarrow> input_value inp = []) \<Longrightarrow>
   passwords_blank (obj_set inputs k inp)"
  unfolding passwords_blank_def by (induction inputs) auto

lemma obj_get_in_set: "obj_get xs k = Some v \<Longrightarrow> (k, v) \<in> set xs"
  by (simp add: obj_get_def map_of_SomeD)

lemma passwords_blank_prefill:
  "passwords_blank inputs \<Longrightarrow> passwords_blank (prefill fs inputs)"
proof (induction fs inputs rule: prefill.induct)
  case (1 inputs)
  then show ?case by simp
next
  case (2 k v rest inputs)
  show ?case
  proof (cases "obj_get inputs k")
    case None
    then show ?thesis using 2 by simp
  next
    case (Some input)
    then have "(k, input) \<in> set inputs" by (rule obj_get_in_set)
    then have pw: "input_type input = ''password'' \<longrightarrow> input_value input = []"
      using "2.prems" by (auto simp: passwords_blank_def list_all_iff)
    show ?thesis
    proof (cases "input_type input = ''password''")
      case True
      then show ?thesis using 2 Some pw by (simp add: passwords_blank_obj_set)
    next
      case False
      then show ?thesis using 2 Some by (simp add: passwords_blank_obj_set)
    qed
  qed
qed

lemma passwords_blank_render: "passwords_blank (renderDynamicFields kind)"
proof (cases "obj_get DATABASE_CONFIGS kind")
  case None
  then show ?thesis by (simp add: renderDynamicFields_def passwords_blank_def)
next
  case (Some config)
  then have "(kind, config) \<in> set DATABASE_CONFIGS" by (rule obj_get_in_set)
  then have "list_all (\<lambda>f. field_type f = ''password'' \<longrightarrow> field_default f = None) (config_fields config)"
    by (auto simp: DATABASE_CONFIGS_def mk_field_def)
  then show ?thesis using Some
    by (auto simp: renderDynamicFields_def passwords_blank_def list_all_iff render_input_def)
qed

lemmas form_eval = saveConnection_def typed_form_def typed_inputs_def renderDynamicFields_def
  DATABASE_CONFIGS_def obj_get_def mk_field_def render_input_def validateExtraJson_def
  getExtraJson_def trim_def decimal.simps config_table_def field_row_def

lemma config_tables:
  "map fst DATABASE_CONFIGS =
     [''postgresql'', ''mysql'', ''mssql'', ''oracle'', ''sqlite'', ''mongodb'', ''opensearch'',
      ''elasticsearch'']
   \<and> config_table ''postgresql'' =
     [(''host'', ''text'', True, None), (''port'', ''number'', True, Some 5432),
      (''username'', ''text'', True, None), (''password'', ''password'', True, None),
      (''database'', ''text'', True, None)]
   \<and> config_table ''mysql'' =
     [(''host'', ''text'', True, None), (''port'', ''number'', True, Some 3306),
      (''username'', ''text'', True, None), (''password'', ''password'', True, None),
      (''database'', ''text'', True, None)]
   \<and> config_table ''oracle'' =
     [(''host'', ''text'', True, None), (''port'', ''number'', True, Some 1521),
      (''username'', ''text'', True, None), (''password'', ''password'', True, None),
      (''database'', ''text'', True, None)]
   \<and> config_table ''mongodb'' =
     [(''host'', ''text'', True, None), (''port'', ''number'', True, Some 27017),
      (''username'', ''text'', False, None), (''password'', ''password'', False, None),
      (''database'', ''text'', True, None)]
   \<and> config_table ''opensearch'' =
     [(''host'', ''text'', True, None), (''port'', ''number'', True, Some 9200),
      (''username'', ''text'', False, None), (''password'', ''password'', False, None)]
   \<and> config_table ''elasticsearch'' =
     [(''host'', ''text'', True, None), (''port'', ''number'', True, Some 9200),
      (''username'', ''text'', False, None), (''password'', ''password'', False, None)]
   \<and> config_table ''mssql'' =
     [(''host'', ''text'', True, None), (''port'', ''number'', False, Some 1433),
      (''username'', ''text'', True, None), (''password'', ''password'', True, None),
      (''database'', ''text'', True, None)]
   \<and> config_table ''sqlite'' = [(''filePath'', ''text'', True, None)]"
  by (simp add: config_table_def DATABASE_CONFIGS_def obj_get_def field_row_def mk_field_def)

lemma saveConnection_sent_required:
  assumes "saveConnection form = Sent req"
  shows "\<exists>config. obj_get DATABASE_CONFIGS (databaseType form) = Some config
     \<and> (\<forall>f \<in> set (config_fields config).
          \<exists>inp. obj_get (field_inputs form) (field_name f) = Some inp
            \<and> (field_required f \<longrightarrow>
                 input_value inp \<noteq> []
                 \<or> (connectionId form \<noteq> [] \<and> field_type f = ''password'')))"
proof -
  from assms obtain config st where
    cfg: "obj_get DATABASE_CONFIGS (databaseType form) = Some config"
    and st: "collect_fields (connectionId form) (field_inputs form) (config_fields config)
               \<lparr>isValid = True, collected = [], shown = []\<rparr> = Some st"
    and valid: "isValid st"
    by (auto simp: saveConnection_def split: if_splits option.splits)
  from collect_fields_valid[OF st valid] cfg show ?thesis by blast
qed

text \<open>
  C1, as the code has it. The templates cover eight engine kinds. postgresql, mysql,
  oracle and mongodb take host (text), port (number, with a numeric default), username,
  password and database; opensearch and elasticsearch take host, port, username and
  password and no database name; username and password are optional for mongodb,
  opensearch and elasticsearch; mssql takes host, an optional port, username, password
  and database; sqlite takes a file path only. When \<^verbatim>\<open>saveConnection\<close> sends a
  request, the kind has a template and every required field of it has a non-empty
  value, except that with a connection key present (an update) a password-typed field
  may be empty.
\<close>

theorem field_requirements:
  "(map fst DATABASE_CONFIGS =
     [''postgresql'', ''mysql'', ''mssql'', ''oracle'', ''sqlite'', ''mongodb'', ''opensearch'',
      ''elasticsearch'']
   \<and> config_table ''postgresql'' =
     [(''host'', ''text'', True, None), (''port'', ''number'', True, Some 5432),
      (''username'', ''text'', True, None), (''password'', ''password'', True, None),
      (''database'', ''text'', True, None)]
   \<and> config_table ''mysql'' =
     [(''host'', ''text'', True, None), (''port'', ''number'', True, Some 3306),
      (''username'', ''text'', True, None), (''password'', ''password'', True, None),
      (''database'', ''text'', True, None)]
   \<and> config_table ''oracle'' =
     [(''host'', ''text'', True, None), (''port'', ''number'', True, Some 1521),
      (''username'', ''text'', True, None), (''password'', ''password'', True, None),
      (''database'', ''text'', True, None)]
   \<and> config_table ''mongodb'' =
     [(''host'', ''text'', True, None), (''port'', ''number'', True, Some 27017),
      (''username'', ''text'', False, None), (''password'', ''password'', False, None),
      (''database'', ''text'', True, None)]
   \<and> config_table ''opensearch'' =
     [(''host'', ''text'', True, None), (''port'', ''number'', True, Some 9200),
      (''username'', ''text'', False, None), (''password'', ''password'', False, None)]
   \<and> config_table ''elasticsearch'' =
     [(''host'', ''text'', True, None), (''port'', ''number'', True, Some 9200),
      (''username'', ''text'', False, None), (''password'', ''password'', False, None)]
   \<and> config_table ''mssql'' =
     [(''host'', ''text'', True, None), (''port'', ''number'', False, Some 1433),
      (''username'', ''text'', True, None), (''password'', ''password'', True, None),
      (''database'', ''text'', True, None)]
   \<and> config_table ''sqlite'' = [(''filePath'', ''text'', True, None)])
   \<and> (saveConnection form = Sent req \<longrightarrow>
        (\<exists>config. obj_get DATABASE_CONFIGS (databaseType form) = Some config
           \<and> (\<forall>f \<in> set (config_fields config).
                \<exists>inp. obj_get (field_inputs form) (field_name f) = Some inp
                  \<and> (field_required f \<longrightarrow>
                       input_value inp \<noteq> []
                       \<or> (connectionId form \<noteq> [] \<and> field_type f = ''password'')))))"
  using config_tables saveConnection_sent_required by blast

lemma new_connection_sent:
  "saveConnection
     (typed_form [] ''postgresql''
        [(''host'', ''localhost''), (''username'', ''u''), (''password'', ''p''),
         (''database'', ''d'')] [])
   = Sent \<lparr>req_name = ''pg1'', req_type = ''postgresql'',
       req_fields = [(''host'', ''localhost''), (''port'', ''5432''), (''username'', ''u''),
                     (''password'', ''p''), (''database'', ''d'')],
       req_extra_json = Some [], req_group = [], req_id = None\<rparr>"
  by (simp add: form_eval)

lemma new_connection_inputs:
  "map (\<lambda>(n, inp). (n, input_value inp))
     (field_inputs (typed_form [] ''postgresql''
        [(''host'', ''localhost''), (''username'', ''u''), (''password'', ''p''),
         (''database'', ''d'')] []))
   = [(''host'', ''localhost''), (''port'', ''5432''), (''username'', ''u''),
      (''password'', ''p''), (''database'', ''d'')]"
  by (simp add: form_eval)

theorem field_requirements_witness:
  "saveConnection
     (typed_form [] ''postgresql''
        [(''host'', ''localhost''), (''username'', ''u''), (''password'', ''p''),
         (''database'', ''d'')] [])
   = Sent \<lparr>req_name = ''pg1'', req_type = ''postgresql'',
       req_fields = [(''host'', ''localhost''), (''port'', ''5432''), (''username'', ''u''),
                     (''password'', ''p''), (''database'', ''d'')],
       req_extra_json = Some [], req_group = [], req_id = None\<rparr>
   \<and> map (\<lambda>(n, inp). (n, input_value inp))
     (field_inputs (typed_form [] ''postgresql''
        [(''host'', ''localhost''), (''username'', ''u''), (''password'', ''p''),
         (''database'', ''d'')] []))
   = [(''host'', ''localhost''), (''port'', ''5432''), (''username'', ''u''),
      (''password'', ''p''), (''database'', ''d'')]
   \<and> (\<exists>config. obj_get DATABASE_CONFIGS ''postgresql'' = Some config
         \<and> list_all (\<lambda>f. \<exists>inp. obj_get (field_inputs (typed_form [] ''postgresql''
               [(''host'', ''localhost''), (''username'', ''u''), (''password'', ''p''),
                (''database'', ''d'')] [])) (field_name f) = Some inp
                \<and> input_value inp \<noteq> []) (config_fields config))
   \<and> config_table ''sqlite'' = [(''filePath'', ''text'', True, None)]"
proof -
  let ?form = "typed_form [] ''postgresql''
        [(''host'', ''localhost''), (''username'', ''u''), (''password'', ''p''),
         (''database'', ''d'')] []"
  let ?req = "\<lparr>req_name = ''pg1'', req_type = ''postgresql'',
       req_fields = [(''host'', ''localhost''), (''port'', ''5432''), (''username'', ''u''),
                     (''password'', ''p''), (''database'', ''d'')],
       req_extra_json = Some [], req_group = [], req_id = None\<rparr>"
  have sent: "saveConnection ?form = Sent ?req" by (rule new_connection_sent)
  have cid: "connectionId ?form = []" "databaseType ?form = ''postgresql''"
    by (simp_all add: typed_form_def)
  from field_requirements[of ?form ?req] sent cid
  obtain config where cfg: "obj_get DATABASE_CONFIGS ''postgresql'' = Some config"
    and all: "\<forall>f \<in> set (config_fields config).
                \<exists>inp. obj_get (field_inputs ?form) (field_name f) = Some inp
                  \<and> (field_required f \<longrightarrow> input_value inp \<noteq> [])"
    by auto
  have "list_all field_required (config_fields config)"
    using cfg by (auto simp: obj_get_def DATABASE_CONFIGS_def mk_field_def)
  with all have "list_all (\<lambda>f. \<exists>inp. obj_get (field_inputs ?form) (field_name f) = Some inp
                \<and> input_value inp \<noteq> []) (config_fields config)"
    by (auto simp: list_all_iff)
  with cfg sent new_connection_inputs field_requirements[of ?form ?req] show ?thesis
    by blast
qed

text \<open>
  The claim as it was written fails in two places: the templates of opensearch and
  elasticsearch have no database name, and an update with a blank required password is
  sent.
\<close>

theorem field_requirements_counterexample:
  "''database'' \<notin> set (map fst (config_table ''opensearch''))
   \<and> ''database'' \<notin> set (map fst (config_table ''elasticsearch''))
   \<and> (''password'', ''password'', True, None) \<in> set (config_table ''postgresql'')
   \<and> saveConnection
       (typed_form ''k1'' ''postgresql''
          [(''host'', ''localhost''), (''username'', ''u''), (''database'', ''d'')] [])
     = Sent \<lparr>req_name = ''pg1'', req_type = ''postgresql'',
         req_fields = [(''host'', ''localhost''), (''port'', ''5432''), (''username'', ''u''),
                       (''password'', []), (''database'', ''d'')],
         req_extra_json = Some [], req_group = [], req_id = Some ''k1''\<rparr>"
  by (simp add: form_eval)

section \<open>Extra JSON\<close>

lemmas json_eval = JSON_parse_def idle_char_def json_whitespace_def is_word_char_def
  word_token_def typeof_def Array_isArray_def js_whitespace_def json_number_def
  json_fraction_def json_exponent_def is_digit_def

lemma typeof_object_iff:
  "typeof v = ''object'' \<and> \<not> Array_isArray v \<longleftrightarrow> v = JNull \<or> (\<exists>kvs. v = JObj kvs)"
  by (cases v) (simp_all add: typeof_def Array_isArray_def)

lemma validateExtraJson_accepts_iff:
  "fst (validateExtraJson el) \<longleftrightarrow>
     getExtraJson el = []
     \<or> (\<exists>v. JSON_parse (getExtraJson el) = Some v \<and> (v = JNull \<or> (\<exists>kvs. v = JObj kvs)))"
  using typeof_object_iff
  by (auto simp: validateExtraJson_def Let_def split: option.splits)

lemma saveConnection_refuses_extra_json:
  "connectionName form \<noteq> [] \<Longrightarrow> databaseType form \<noteq> [] \<Longrightarrow>
   \<not> fst (validateExtraJson (extraJson form)) \<Longrightarrow>
   saveConnection form = Refused (snd (validateExtraJson (extraJson form)))"
  by (simp add: saveConnection_def)

text \<open>
  C2. The validation accepts the empty text and every text that parses to an object, and
  it refuses texts that do not parse, arrays, numbers, strings and booleans, before any
  request is made. But it also accepts the text \<^verbatim>\<open>null\<close>: \<^verbatim>\<open>typeof null\<close> is
  \<^verbatim>\<open>'object'\<close> and \<^verbatim>\<open>null\<close> is no array, so a scalar passes the check that the
  script's own message describes as "must be a JSON object", and the request is sent
  with it.
\<close>

theorem extra_json_null_accepted:
  "JSON_parse ''null'' = Some JNull
   \<and> validateExtraJson (Some ''null'') = (True, [])
   \<and> saveConnection
       (typed_form [] ''postgresql''
          [(''host'', ''localhost''), (''username'', ''u''), (''password'', ''p''),
           (''database'', ''d'')] ''null'')
     = Sent \<lparr>req_name = ''pg1'', req_type = ''postgresql'',
         req_fields = [(''host'', ''localhost''), (''port'', ''5432''), (''username'', ''u''),
                       (''password'', ''p''), (''database'', ''d'')],
         req_extra_json = Some ''null'', req_group = [], req_id = None\<rparr>"
  by (simp add: form_eval json_eval)

theorem extra_json_null_accepted_witness:
  "fst (validateExtraJson (Some ''null'')) \<and> JSON_parse ''null'' \<noteq> None"
  using extra_json_null_accepted by simp

lemma extra_json_examples:
  "validateExtraJson (Some ''[1]'') = (False, [ExtraJsonNotObject])
   \<and> validateExtraJson (Some ''5'') = (False, [ExtraJsonNotObject])
   \<and> validateExtraJson (Some ''{'') = (False, [InvalidExtraJson])
   \<and> validateExtraJson (Some ''{}'') = (True, [])
   \<and> validateExtraJson (Some ''  '') = (True, [])"
  by (simp add: form_eval json_eval)

section \<open>Passwords on update\<close>

lemma saveConnection_update_sent:
  assumes "connectionName form \<noteq> []" "databaseType form \<noteq> []"
    "fst (validateExtraJson (extraJson form))"
    "obj_get DATABASE_CONFIGS (databaseType form) = Some config"
    "\<forall>f \<in> set (config_fields config).
        \<exists>inp. obj_get (field_inputs form) (field_name f) = Some inp
          \<and> (field_required f \<longrightarrow>
               input_value inp \<noteq> [] \<or> (connectionId form \<noteq> [] \<and> field_type f = ''password''))"
  shows "\<exists>req. saveConnection form = Sent req
     \<and> req_id req = (if connectionId form = [] then None else Some (connectionId form))
     \<and> distinct (map fst (req_fields req))
     \<and> (\<forall>f \<in> set (config_fields config).
           obj_get (req_fields req) (field_name f)
             = map_option input_value (obj_get (field_inputs form) (field_name f)))"
proof -
  from collect_fields_accepts[OF assms(5), of "\<lparr>isValid = True, collected = [], shown = []\<rparr>"]
  obtain st where st:
    "collect_fields (connectionId form) (field_inputs form) (config_fields config)
       \<lparr>isValid = True, collected = [], shown = []\<rparr> = Some st"
    "isValid st" "distinct (map fst (collected st))"
    "\<forall>n. obj_get (collected st) n =
            (if n \<in> field_name ` set (config_fields config)
             then map_option input_value (obj_get (field_inputs form) n)
             else obj_get [] n)"
    by auto
  then show ?thesis using assms(1-4)
    by (auto simp: saveConnection_def)
qed

lemma update_fields_blank_distinct:
  assumes "password_typed n" "distinct (map fst req)" "obj_get req n = Some []"
  shows "obj_get (update_fields store password_typed stored req) n = obj_get stored n"
proof -
  have "\<forall>v. (n, v) \<in> set req \<longrightarrow> v = []"
  proof (intro allI impI)
    fix v assume "(n, v) \<in> set req"
    then have "map_of req n = Some v" using assms(2) by (rule map_of_is_SomeI[rotated])
    then show "v = []" using assms(3) by (simp add: obj_get_def)
  qed
  with assms(1) show ?thesis by (rule update_fields_keeps_blank)
qed

lemma editConnection_passwords_blank:
  "editConnection options dbs dbKey = Some ef \<Longrightarrow> passwords_blank (edit_inputs ef)"
  by (auto simp: editConnection_def passwords_blank_render passwords_blank_prefill
      split: option.splits)

text \<open>
  C3. When the dialog holds a connection key (an update) and every required field
  that is not password-typed has a value, \<^verbatim>\<open>saveConnection\<close> sends the request: a
  blank password-typed field raises no required-field error and travels as the empty
  string. The update of the stored fields keeps the stored value of every
  password-typed field that the request leaves blank, and whatever the request, the
  stored value of a password-typed field stays or is replaced by the stored form of a
  non-empty value. After \<^verbatim>\<open>editConnection\<close> every password input of the dialog is
  empty, whatever the cached entry holds.
\<close>

theorem blank_password_on_update:
  "(connectionId form \<noteq> [] \<and> connectionName form \<noteq> [] \<and> databaseType form \<noteq> []
      \<and> fst (validateExtraJson (extraJson form))
      \<and> obj_get DATABASE_CONFIGS (databaseType form) = Some config
      \<and> (\<forall>f \<in> set (config_fields config).
            \<exists>inp. obj_get (field_inputs form) (field_name f) = Some inp
              \<and> (field_required f \<longrightarrow> input_value inp \<noteq> [] \<or> field_type f = ''password''))
    \<longrightarrow> (\<exists>req. saveConnection form = Sent req
          \<and> req_id req = Some (connectionId form)
          \<and> (\<forall>f \<in> set (config_fields config).
                obj_get (req_fields req) (field_name f)
                  = map_option input_value (obj_get (field_inputs form) (field_name f)))
          \<and> (\<forall>n. password_typed n \<and> obj_get (req_fields req) n = Some [] \<longrightarrow>
                obj_get (update_fields store password_typed stored (req_fields req)) n
                  = obj_get stored n)))
   \<and> (password_typed m \<longrightarrow>
        obj_get (update_fields store password_typed stored fs) m = obj_get stored m
        \<or> (\<exists>v. v \<noteq> [] \<and> obj_get (update_fields store password_typed stored fs) m
                           = Some (store m v)))
   \<and> (editConnection options dbs dbKey = Some ef \<longrightarrow> passwords_blank (edit_inputs ef))"
proof (intro conjI impI)
  assume a: "connectionId form \<noteq> [] \<and> connectionName form \<noteq> [] \<and> databaseType form \<noteq> []
      \<and> fst (validateExtraJson (extraJson form))
      \<and> obj_get DATABASE_CONFIGS (databaseType form) = Some config
      \<and> (\<forall>f \<in> set (config_fields config).
            \<exists>inp. obj_get (field_inputs form) (field_name f) = Some inp
              \<and> (field_required f \<longrightarrow> input_value inp \<noteq> [] \<or> field_type f = ''password''))"
  then have fields: "\<forall>f \<in> set (config_fields config).
        \<exists>inp. obj_get (field_inputs form) (field_name f) = Some inp
          \<and> (field_required f \<longrightarrow>
               input_value inp \<noteq> [] \<or> (connectionId form \<noteq> [] \<and> field_type f = ''password''))"
    by blast
  from a have pre: "connectionName form \<noteq> []" "databaseType form \<noteq> []"
    "fst (validateExtraJson (extraJson form))"
    "obj_get DATABASE_CONFIGS (databaseType form) = Some config" "connectionId form \<noteq> []"
    by blast+
  from saveConnection_update_sent[OF pre(1-4) fields] obtain req where req:
    "saveConnection form = Sent req" "req_id req = Some (connectionId form)"
    "distinct (map fst (req_fields req))"
    "\<forall>f \<in> set (config_fields config).
           obj_get (req_fields req) (field_name f)
             = map_option input_value (obj_get (field_inputs form) (field_name f))"
    using pre(5) by auto
  have "\<forall>n. password_typed n \<and> obj_get (req_fields req) n = Some [] \<longrightarrow>
                obj_get (update_fields store password_typed stored (req_fields req)) n
                  = obj_get stored n"
    using update_fields_blank_distinct[OF _ req(3)] by blast
  with req show "\<exists>req. saveConnection form = Sent req
          \<and> req_id req = Some (connectionId form)
          \<and> (\<forall>f \<in> set (config_fields config).
                obj_get (req_fields req) (field_name f)
                  = map_option input_value (obj_get (field_inputs form) (field_name f)))
          \<and> (\<forall>n. password_typed n \<and> obj_get (req_fields req) n = Some [] \<longrightarrow>
                obj_get (update_fields store password_typed stored (req_fields req)) n
                  = obj_get stored n)"
    by blast
next
  assume "password_typed m"
  then show "obj_get (update_fields store password_typed stored fs) m = obj_get stored m
        \<or> (\<exists>v. v \<noteq> [] \<and> obj_get (update_fields store password_typed stored fs) m
                           = Some (store m v))"
    by (rule update_fields_never_empty)
next
  assume "editConnection options dbs dbKey = Some ef"
  then show "passwords_blank (edit_inputs ef)" by (rule editConnection_passwords_blank)
qed


theorem blank_password_on_update_witness:
  "saveConnection
     (typed_form ''k1'' ''postgresql''
        [(''host'', ''localhost''), (''username'', ''u''), (''database'', ''d'')] [])
   = Sent \<lparr>req_name = ''pg1'', req_type = ''postgresql'',
       req_fields = [(''host'', ''localhost''), (''port'', ''5432''), (''username'', ''u''),
                     (''password'', []), (''database'', ''d'')],
       req_extra_json = Some [], req_group = [], req_id = Some ''k1''\<rparr>
   \<and> obj_get
       (update_fields (\<lambda>n v. ''enc:'' @ v) (\<lambda>n. n = ''password'')
          [(''host'', ''enc:old-host''), (''password'', ''enc:old-secret'')]
          [(''host'', ''localhost''), (''port'', ''5432''), (''username'', ''u''),
           (''password'', []), (''database'', ''d'')])
       ''password''
     = Some ''enc:old-secret''
   \<and> map (\<lambda>(n, inp). (n, input_value inp))
       (edit_inputs (the (editConnection (map fst DATABASE_CONFIGS) example_databases ''k1'')))
     = [(''host'', ''localhost''), (''port'', ''5432''), (''username'', ''u''),
        (''password'', []), (''database'', ''d'')]
   \<and> passwords_blank
       (edit_inputs (the (editConnection (map fst DATABASE_CONFIGS) example_databases ''k1'')))"
proof -
  let ?form = "typed_form ''k1'' ''postgresql''
        [(''host'', ''localhost''), (''username'', ''u''), (''database'', ''d'')] []"
  let ?req = "\<lparr>req_name = ''pg1'', req_type = ''postgresql'',
       req_fields = [(''host'', ''localhost''), (''port'', ''5432''), (''username'', ''u''),
                     (''password'', []), (''database'', ''d'')],
       req_extra_json = Some [], req_group = [], req_id = Some ''k1''\<rparr>"
  let ?cfg = "snd (hd DATABASE_CONFIGS)"
  let ?pt = "\<lambda>n. n = ''password''"
  let ?store = "\<lambda>(n::string) v. ''enc:'' @ v"
  let ?stored = "[(''host'', ''enc:old-host''), (''password'', ''enc:old-secret'')]"
  let ?ef = "the (editConnection (map fst DATABASE_CONFIGS) example_databases ''k1'')"
  note inst = blank_password_on_update[where form = ?form and config = ?cfg
      and password_typed = ?pt and store = ?store and stored = ?stored
      and options = "map fst DATABASE_CONFIGS" and dbs = example_databases
      and dbKey = "''k1''" and ef = ?ef]
  have sent: "saveConnection ?form = Sent ?req" by (simp add: form_eval)
  have hyp: "connectionId ?form \<noteq> [] \<and> connectionName ?form \<noteq> [] \<and> databaseType ?form \<noteq> []
      \<and> fst (validateExtraJson (extraJson ?form))
      \<and> obj_get DATABASE_CONFIGS (databaseType ?form) = Some ?cfg
      \<and> (\<forall>f \<in> set (config_fields ?cfg).
            \<exists>inp. obj_get (field_inputs ?form) (field_name f) = Some inp
              \<and> (field_required f \<longrightarrow> input_value inp \<noteq> [] \<or> field_type f = ''password''))"
    by (simp add: form_eval)
  from inst hyp sent
  have keep: "obj_get (update_fields ?store ?pt ?stored (req_fields ?req)) ''password''
      = obj_get ?stored ''password''"
    by (auto simp: obj_get_def)
  have edit: "editConnection (map fst DATABASE_CONFIGS) example_databases ''k1'' = Some ?ef"
    by (simp add: editConnection_def example_databases_def obj_get_def)
  from inst edit have blank: "passwords_blank (edit_inputs ?ef)" by blast
  have vals: "map (\<lambda>(n, inp). (n, input_value inp)) (edit_inputs ?ef)
     = [(''host'', ''localhost''), (''port'', ''5432''), (''username'', ''u''),
        (''password'', []), (''database'', ''d'')]"
    by (simp add: editConnection_def example_databases_def form_eval Object_entries_def
        is_array_index_def is_digit_def)
  from sent keep blank vals show ?thesis by (simp add: obj_get_def)
qed

section \<open>Facts about the sidebar\<close>

lemma mset_Object_entries: "mset (Object_entries obj) = mset obj"
  by (simp add: Object_entries_def)

lemma set_Object_entries: "set (Object_entries obj) = set obj"
  by (auto simp: Object_entries_def)

lemma obj_get_None_iff: "obj_get xs k = None \<longleftrightarrow> k \<notin> fst ` set xs"
  by (simp add: obj_get_def map_of_eq_None_iff)

lemma set_Object_keys: "set (Object_keys obj) = fst ` set obj"
  by (simp add: Object_keys_def set_Object_entries)

lemma set_Object_values: "set (Object_values obj) = snd ` set obj"
  by (simp add: Object_values_def set_Object_entries)

lemma distinct_Object_keys: "distinct (map fst obj) \<Longrightarrow> distinct (Object_keys obj)"
proof -
  assume "distinct (map fst obj)"
  moreover have "mset (map fst (Object_entries obj)) = mset (map fst obj)"
    by (simp add: mset_Object_entries)
  ultimately show ?thesis unfolding Object_keys_def by (metis mset_eq_imp_distinct_iff)
qed

lemma groups_no_folder_obj_set:
  "groups_no_folder groups \<Longrightarrow> no_folder items \<Longrightarrow> groups_no_folder (obj_set groups k items)"
  unfolding groups_no_folder_def by (induction groups) auto

lemma groups_no_folder_get:
  "groups_no_folder groups \<Longrightarrow> obj_get groups k = Some items \<Longrightarrow> no_folder items"
  unfolding groups_no_folder_def by (auto simp: list_all_iff dest!: obj_get_in_set)

lemma get_property_Own: "get_property obj k = Own v \<longleftrightarrow> obj_get obj k = Some v"
  by (auto simp: get_property_def split: option.splits)

lemma ensure_group_no_folder:
  "groups_no_folder groups \<Longrightarrow> groups_no_folder (ensure_group groups k)"
  by (auto simp: ensure_group_def groups_no_folder_obj_set no_folder_def split: property.splits)

lemma ensure_group_keys_mono: "fst ` set groups \<subseteq> fst ` set (ensure_group groups k)"
proof -
  have "set (map fst groups) \<subseteq> set (map fst (obj_set groups k []))"
    by (auto simp: map_fst_obj_set)
  then show ?thesis by (auto simp: ensure_group_def split: property.splits)
qed

lemma ensure_group_key:
  assumes "k \<notin> set inherited_names"
  shows "k \<in> fst ` set (ensure_group groups k)"
proof (cases "obj_get groups k")
  case None
  then have "get_property groups k = Missing" using assms by (simp add: get_property_def)
  moreover have "k \<in> set (map fst (obj_set groups k []))" by (simp add: map_fst_obj_set)
  ultimately show ?thesis by (simp add: ensure_group_def)
next
  case (Some items)
  then have "(k, items) \<in> set groups" by (rule obj_get_in_set)
  then have "k \<in> fst ` set groups" by force
  then show ?thesis using ensure_group_keys_mono by blast
qed

lemma ensure_group_distinct:
  "distinct (map fst groups) \<Longrightarrow> distinct (map fst (ensure_group groups k))"
  by (auto simp: ensure_group_def distinct_obj_set split: property.splits)

lemma place_no_folder:
  assumes "place acc db = Some acc'" "groups_no_folder (fst acc)" "no_folder (snd acc)"
  shows "groups_no_folder (fst acc') \<and> no_folder (snd acc')"
proof -
  obtain groups ungrouped where acc: "acc = (groups, ungrouped)" by (cases acc)
  show ?thesis
  proof (cases "db_engine db = ''folder''")
    case True
    then show ?thesis using assms acc by (auto simp: place_def ensure_group_no_folder)
  next
    case False
    note nf = this
    show ?thesis
    proof (cases "group_or_empty db = []")
      case True
      then show ?thesis using nf assms acc by (auto simp: place_def no_folder_def)
    next
      case False
      let ?g = "group_or_empty db"
      let ?groups1 = "ensure_group groups ?g"
      from assms(1) nf False acc obtain items where
        own: "get_property ?groups1 ?g = Own items"
        and acc': "acc' = (obj_set ?groups1 ?g (items @ [db]), ungrouped)"
        by (auto simp: place_def split: property.splits)
      have g1: "groups_no_folder ?groups1" using assms(2) acc by (simp add: ensure_group_no_folder)
      have "no_folder items"
        using g1 own groups_no_folder_get[of ?groups1 ?g items] by (simp add: get_property_Own)
      then have "no_folder (items @ [db])" using nf by (simp add: no_folder_def)
      then show ?thesis using acc' g1 assms(3) acc by (simp add: groups_no_folder_obj_set)
    qed
  qed
qed

lemma place_all_no_folder:
  "place_all acc ds = Some acc' \<Longrightarrow> groups_no_folder (fst acc) \<Longrightarrow> no_folder (snd acc) \<Longrightarrow>
   groups_no_folder (fst acc') \<and> no_folder (snd acc')"
proof (induction ds arbitrary: acc)
  case Nil
  then show ?case by simp
next
  case (Cons d ds)
  from Cons.prems(1) obtain acc1 where p: "place acc d = Some acc1"
    and r: "place_all acc1 ds = Some acc'"
    by (auto split: option.splits)
  from place_no_folder[OF p Cons.prems(2,3)] Cons.IH[OF r] show ?case by blast
qed

lemma sort_group_no_folder:
  "groups_no_folder groups \<Longrightarrow> groups_no_folder (sort_group groups k)"
  by (auto simp: sort_group_def no_folder_def list_all_iff
      intro!: groups_no_folder_obj_set dest: groups_no_folder_get split: option.splits)

lemma foldl_sort_group_no_folder:
  "groups_no_folder groups \<Longrightarrow> groups_no_folder (foldl sort_group groups ks)"
  by (induction ks arbitrary: groups) (auto simp: sort_group_no_folder)

lemma renderDatabaseList_Sidebar:
  assumes "renderDatabaseList dbs = Sidebar sb"
  shows "\<exists>groups ungrouped. place_all ([], []) (Object_values dbs) = Some (groups, ungrouped)
     \<and> sb = \<lparr>root_items = sort_key order_or_zero ungrouped,
               group_sections = Object_entries (sort_groups groups)\<rparr>"
  using assms by (auto simp: renderDatabaseList_def split: if_splits option.splits)

lemma renderDatabaseList_no_folder:
  assumes "renderDatabaseList dbs = Sidebar sb"
  shows "no_folder (shown_items sb)"
proof -
  from renderDatabaseList_Sidebar[OF assms] obtain groups ungrouped where
    f: "place_all ([], []) (Object_values dbs) = Some (groups, ungrouped)"
    and sb: "sb = \<lparr>root_items = sort_key order_or_zero ungrouped,
                   group_sections = Object_entries (sort_groups groups)\<rparr>"
    by blast
  have "groups_no_folder (fst (groups, ungrouped)) \<and> no_folder (snd (groups, ungrouped))"
    by (rule place_all_no_folder[OF f]) (simp_all add: groups_no_folder_def no_folder_def)
  then have g: "groups_no_folder groups" and u: "no_folder ungrouped" by simp_all
  from g have "groups_no_folder (sort_groups groups)"
    by (simp add: sort_groups_def foldl_sort_group_no_folder)
  then have "groups_no_folder (Object_entries (sort_groups groups))"
    by (simp add: groups_no_folder_def list_all_iff set_Object_entries)
  moreover have "no_folder (sort_key order_or_zero ungrouped)"
    using u by (simp add: no_folder_def list_all_iff)
  ultimately show ?thesis
    using sb by (auto simp: shown_items_def no_folder_def groups_no_folder_def list_all_iff)
qed

lemma obj_set_keys_mono: "fst ` set obj \<subseteq> fst ` set (obj_set obj k v)"
proof -
  have "set (map fst obj) \<subseteq> set (map fst (obj_set obj k v))"
    by (auto simp: map_fst_obj_set)
  then show ?thesis by simp
qed

lemma place_keys_mono:
  assumes "place acc db = Some acc'"
  shows "fst ` set (fst acc) \<subseteq> fst ` set (fst acc')"
proof -
  obtain groups ungrouped where acc: "acc = (groups, ungrouped)" by (cases acc)
  from assms acc consider "acc' = (ensure_group groups (folder_group db), ungrouped)"
    | items where "acc' = (obj_set (ensure_group groups (group_or_empty db)) (group_or_empty db)
                             (items @ [db]), ungrouped)"
    | "acc' = (groups, ungrouped @ [db])"
    by (auto simp: place_def split: if_splits property.splits)
  then show ?thesis
  proof cases
    case 1
    then show ?thesis using acc ensure_group_keys_mono by simp
  next
    case 2
    then show ?thesis
      using acc ensure_group_keys_mono[of groups "group_or_empty db"]
        obj_set_keys_mono[of "ensure_group groups (group_or_empty db)" "group_or_empty db"
          "items @ [db]"]
      by auto
  next
    case 3
    then show ?thesis using acc by simp
  qed
qed

lemma place_all_keys_mono:
  "place_all acc ds = Some acc' \<Longrightarrow> fst ` set (fst acc) \<subseteq> fst ` set (fst acc')"
proof (induction ds arbitrary: acc)
  case Nil
  then show ?case by simp
next
  case (Cons d ds)
  from Cons.prems obtain acc1 where p: "place acc d = Some acc1"
    and r: "place_all acc1 ds = Some acc'"
    by (auto split: option.splits)
  from place_keys_mono[OF p] Cons.IH[OF r] show ?case by blast
qed

lemma place_folder_key:
  assumes "db_engine db = ''folder''" "folder_group db \<notin> set inherited_names"
    "place acc db = Some acc'"
  shows "folder_group db \<in> fst ` set (fst acc')"
proof -
  obtain groups ungrouped where acc: "acc = (groups, ungrouped)" by (cases acc)
  then have "acc' = (ensure_group groups (folder_group db), ungrouped)"
    using assms(1,3) by (simp add: place_def)
  then show ?thesis using ensure_group_key[OF assms(2)] by simp
qed

lemma place_all_folder_key:
  "db \<in> set ds \<Longrightarrow> db_engine db = ''folder'' \<Longrightarrow> folder_group db \<notin> set inherited_names \<Longrightarrow>
   place_all acc ds = Some acc' \<Longrightarrow> folder_group db \<in> fst ` set (fst acc')"
proof (induction ds arbitrary: acc)
  case Nil
  then show ?case by simp
next
  case (Cons d ds)
  from Cons.prems(4) obtain acc1 where p: "place acc d = Some acc1"
    and r: "place_all acc1 ds = Some acc'"
    by (auto split: option.splits)
  show ?case
  proof (cases "db = d")
    case True
    then have "folder_group db \<in> fst ` set (fst acc1)"
      using place_folder_key[OF Cons.prems(2,3)] p by simp
    then show ?thesis using place_all_keys_mono[OF r] by blast
  next
    case False
    then have "db \<in> set ds" using Cons.prems(1) by simp
    from Cons.IH[OF this Cons.prems(2,3) r] show ?thesis .
  qed
qed

lemma map_fst_sort_group: "map fst (sort_group groups k) = map fst groups"
  by (auto simp: sort_group_def map_fst_obj_set obj_get_None_iff split: option.splits)

lemma map_fst_sort_groups: "map fst (sort_groups groups) = map fst groups"
proof -
  have "\<And>ks. map fst (foldl sort_group groups ks) = map fst groups"
  proof -
    fix ks show "map fst (foldl sort_group groups ks) = map fst groups"
      by (induction ks arbitrary: groups) (simp_all add: map_fst_sort_group)
  qed
  then show ?thesis by (simp add: sort_groups_def)
qed

lemma renderDatabaseList_folder_section:
  assumes "renderDatabaseList dbs = Sidebar sb" "obj_get dbs k = Some db"
    "db_engine db = ''folder''" "folder_group db \<notin> set inherited_names"
  shows "folder_group db \<in> fst ` set (group_sections sb)"
proof -
  from renderDatabaseList_Sidebar[OF assms(1)] obtain groups ungrouped where
    f: "place_all ([], []) (Object_values dbs) = Some (groups, ungrouped)"
    and sb: "sb = \<lparr>root_items = sort_key order_or_zero ungrouped,
                   group_sections = Object_entries (sort_groups groups)\<rparr>"
    by blast
  have "db \<in> set (Object_values dbs)"
    using assms(2) by (auto simp: set_Object_values dest!: obj_get_in_set intro: rev_image_eqI)
  from place_all_folder_key[OF this assms(3,4) f]
  have "folder_group db \<in> fst ` set groups" by simp
  then have "folder_group db \<in> set (map fst (sort_groups groups))"
    by (simp add: map_fst_sort_groups)
  then have "folder_group db \<in> fst ` set (Object_entries (sort_groups groups))"
    by (simp add: set_Object_entries)
  then show ?thesis using sb by simp
qed

section \<open>Facts about reordering\<close>




















section \<open>Reordering by drag and drop\<close>









section \<open>Folders and the order of the sidebar\<close>

lemma set_obj_set_distinct:
  "distinct (map fst xs) \<Longrightarrow> set (obj_set xs k v) = insert (k, v) {e \<in> set xs. fst e \<noteq> k}"
proof (induction xs)
  case Nil
  then show ?case by simp
next
  case (Cons x xs)
  obtain a b where x: "x = (a, b)" by (cases x)
  show ?case
  proof (cases "a = k")
    case True
    then have "\<forall>e \<in> set xs. fst e \<noteq> k" using Cons.prems x by auto
    then show ?thesis using True x by auto
  next
    case False
    then show ?thesis using Cons x by auto
  qed
qed

lemma place_distinct:
  "place acc db = Some acc' \<Longrightarrow> distinct (map fst (fst acc)) \<Longrightarrow> distinct (map fst (fst acc'))"
  by (cases acc)
    (auto simp: place_def distinct_obj_set ensure_group_distinct split: if_splits property.splits)

lemma place_all_distinct:
  "place_all acc ds = Some acc' \<Longrightarrow> distinct (map fst (fst acc)) \<Longrightarrow>
   distinct (map fst (fst acc'))"
proof (induction ds arbitrary: acc)
  case Nil
  then show ?case by simp
next
  case (Cons d ds)
  from Cons.prems(1) obtain acc1 where p: "place acc d = Some acc1"
    and r: "place_all acc1 ds = Some acc'"
    by (auto split: option.splits)
  from Cons.IH[OF r place_distinct[OF p Cons.prems(2)]] show ?case .
qed

lemma sort_group_sorted:
  assumes "distinct (map fst groups)"
    and "\<forall>(g, items) \<in> set groups. g \<in> S \<longrightarrow> sorted (map order_or_zero items)"
  shows "\<forall>(g, items) \<in> set (sort_group groups k). g \<in> insert k S \<longrightarrow> sorted (map order_or_zero items)"
proof (cases "obj_get groups k")
  case None
  then have "k \<notin> fst ` set groups" by (simp add: obj_get_None_iff)
  then show ?thesis using assms(2) None by (force simp: sort_group_def)
next
  case (Some items)
  then show ?thesis using assms
    by (auto simp: sort_group_def set_obj_set_distinct)
qed

lemma foldl_sort_group_sorted:
  assumes "distinct (map fst groups)"
    and "\<forall>(g, items) \<in> set groups. g \<in> S \<longrightarrow> sorted (map order_or_zero items)"
  shows "\<forall>(g, items) \<in> set (foldl sort_group groups ks). g \<in> S \<union> set ks \<longrightarrow> sorted (map order_or_zero items)"
  using assms
proof (induction ks arbitrary: groups S)
  case Nil
  then show ?case by simp
next
  case (Cons k ks)
  have d: "distinct (map fst (sort_group groups k))"
    using Cons.prems(1) by (simp add: map_fst_sort_group)
  from Cons.IH[OF d sort_group_sorted[OF Cons.prems]] show ?case by simp
qed

lemma sidebar_sections_sorted:
  assumes "renderDatabaseList dbs = Sidebar sb"
  shows "sorted (map order_or_zero (root_items sb))
     \<and> list_all (\<lambda>(g, items). sorted (map order_or_zero items)) (group_sections sb)"
proof -
  from renderDatabaseList_Sidebar[OF assms] obtain groups ungrouped where
    f: "place_all ([], []) (Object_values dbs) = Some (groups, ungrouped)"
    and sb: "sb = \<lparr>root_items = sort_key order_or_zero ungrouped,
                   group_sections = Object_entries (sort_groups groups)\<rparr>"
    by blast
  have d: "distinct (map fst groups)"
    using place_all_distinct[OF f] by simp
  have "\<forall>(g, items) \<in> set (sort_groups groups).
          g \<in> {} \<union> set (sort (Object_keys groups)) \<longrightarrow> sorted (map order_or_zero items)"
    unfolding sort_groups_def by (rule foldl_sort_group_sorted[OF d]) simp
  moreover have "fst ` set (sort_groups groups) = set (Object_keys groups)"
    using map_fst_sort_groups[of groups] by (metis list.set_map set_Object_keys)
  ultimately have "\<forall>(g, items) \<in> set (sort_groups groups). sorted (map order_or_zero items)"
    by force
  then show ?thesis
    by (auto simp: sb list_all_iff set_Object_entries)
qed

lemmas sidebar_eval = renderDatabaseList_def Object_keys_def Object_values_def
  Object_entries_def is_array_index_def is_digit_def place_def folder_group_def
  ensure_group_def get_property_def inherited_names_def
  group_or_empty_def order_or_zero_def obj_get_def sort_groups_def sort_group_def
  less_eq_char_def less_char_def Let_def

lemma renderDatabaseList_nonempty:
  "obj_get dbs k = Some db \<Longrightarrow> renderDatabaseList dbs \<noteq> NoDatabases"
proof -
  assume "obj_get dbs k = Some db"
  then have "k \<in> set (Object_keys dbs)"
    by (auto simp: set_Object_keys dest!: obj_get_in_set intro: rev_image_eqI)
  then have "Object_keys dbs \<noteq> []" by auto
  then show ?thesis by (simp add: renderDatabaseList_def split: option.splits prod.splits)
qed

text \<open>
  What holds of folders for every cache. The folder button, given a name that is not
  blank, posts a record of type \<^verbatim>\<open>folder\<close> with no fields, whose name and group
  are the trimmed name. In a sidebar that is drawn no database item is a folder marker,
  and a cached marker has the section of its group unless the name of the group is one
  that \<^verbatim>\<open>Object.prototype\<close> gives to every object.
\<close>

lemma folder_marker_facts:
  "(trim folderName \<noteq> [] \<longrightarrow>
      addFolder_click (Some folderName)
        = Some \<lparr>req_name = trim folderName, req_type = ''folder'', req_fields = [],
                 req_extra_json = None, req_group = trim folderName, req_id = None\<rparr>)
   \<and> (obj_get dbs k = Some db \<longrightarrow> renderDatabaseList dbs \<noteq> NoDatabases)
   \<and> (renderDatabaseList dbs = Sidebar sb \<longrightarrow> no_folder (shown_items sb))
   \<and> (renderDatabaseList dbs = Sidebar sb \<and> obj_get dbs k = Some db
        \<and> db_engine db = ''folder'' \<and> folder_group db \<notin> set inherited_names \<longrightarrow>
      folder_group db \<in> fst ` set (group_sections sb) \<and> db \<notin> set (shown_items sb))"
proof -
  have a: "trim folderName \<noteq> [] \<longrightarrow>
      addFolder_click (Some folderName)
        = Some \<lparr>req_name = trim folderName, req_type = ''folder'', req_fields = [],
                 req_extra_json = None, req_group = trim folderName, req_id = None\<rparr>"
    by (auto simp: addFolder_click_def trim_def)
  have b: "renderDatabaseList dbs = Sidebar sb \<longrightarrow> no_folder (shown_items sb)"
    using renderDatabaseList_no_folder by blast
  have c: "renderDatabaseList dbs = Sidebar sb \<and> obj_get dbs k = Some db
        \<and> db_engine db = ''folder'' \<and> folder_group db \<notin> set inherited_names \<longrightarrow>
      folder_group db \<in> fst ` set (group_sections sb) \<and> db \<notin> set (shown_items sb)"
    using renderDatabaseList_folder_section renderDatabaseList_no_folder
    by (auto simp: no_folder_def list_all_iff)
  from a b c renderDatabaseList_nonempty show ?thesis by blast
qed

lemma example_sidebar:
  "renderDatabaseList example_databases
   = Sidebar
       \<lparr>root_items =
          [\<lparr>db_key = ''k2'', db_name = ''files'', db_engine = ''sqlite'',
            db_fields = Some [(''filePath'', ''./data/database.db'')],
            db_group = None, db_order = Some 0, db_status = None\<rparr>],
        group_sections =
          [(''Prod'',
            [\<lparr>db_key = ''k1'', db_name = ''pg1'', db_engine = ''postgresql'',
              db_fields = Some [(''host'', ''localhost''), (''port'', ''5432''),
                                (''username'', ''u''), (''password'', ''secret''),
                                (''database'', ''d'')],
              db_group = Some ''Prod'', db_order = Some 1, db_status = None\<rparr>])]\<rparr>"
  by (simp add: sidebar_eval example_databases_def)

text \<open>
  C4. The folder button posts the record of a folder whatever its name, and the script
  says of the first loop of \<^verbatim>\<open>renderDatabaseList\<close> that it makes sure that all
  groups exist, the empty ones of folder markers included. For a folder named
  \<^verbatim>\<open>constructor\<close> it does not: \<^verbatim>\<open>groups['constructor']\<close> is the inherited
  constructor and truthy, so no group is created and the marker is drawn neither as a
  section nor as an item; with a connection in that folder the loop throws and the
  sidebar is not drawn at all. For every other cache the marker has its section and is
  never an item (\<open>folder_marker_facts\<close>).
\<close>

theorem folder_constructor_no_section:
  "addFolder_click (Some ''constructor'')
     = Some \<lparr>req_name = ''constructor'', req_type = ''folder'', req_fields = [],
              req_extra_json = None, req_group = ''constructor'', req_id = None\<rparr>
   \<and> renderDatabaseList [(''k1'', constructor_folder)]
     = Sidebar \<lparr>root_items = [], group_sections = []\<rparr>
   \<and> renderDatabaseList
       [(''k1'', constructor_folder),
        (''k2'', \<lparr>db_key = ''k2'', db_name = ''pg1'', db_engine = ''postgresql'',
                  db_fields = None, db_group = Some ''constructor'', db_order = Some 0,
                  db_status = None\<rparr>)]
     = RenderThrew
   \<and> renderDatabaseList
       [(''k3'', \<lparr>db_key = ''k3'', db_name = ''Prod'', db_engine = ''folder'',
                  db_fields = Some [], db_group = Some ''Prod'', db_order = None,
                  db_status = None\<rparr>)]
     = Sidebar \<lparr>root_items = [], group_sections = [(''Prod'', [])]\<rparr>"
  by (simp add: sidebar_eval constructor_folder_def addFolder_click_def trim_def
      js_whitespace_def)

theorem folder_constructor_no_section_witness:
  "(case renderDatabaseList [(''k1'', constructor_folder)] of
      NoDatabases \<Rightarrow> [''none'']
    | Sidebar sb \<Rightarrow> map fst (group_sections sb)
    | RenderThrew \<Rightarrow> [''threw'']) = []
   \<and> folder_group constructor_folder = ''constructor''
   \<and> db_engine constructor_folder = ''folder''"
  using folder_constructor_no_section
  by (simp add: constructor_folder_def folder_group_def group_or_empty_def)

text \<open>
  C8. Inside the root section and inside every group the items are sorted by ascending
  order (\<open>sidebar_sections_sorted\<close>). The script also sorts the group names, but
  only to visit the groups when it sorts their items; it draws the sections in the
  order of \<^verbatim>\<open>Object.keys(groups)\<close>, the order in which the groups were first met.
  With a connection of group B listed before a connection of group A, section B is
  drawn above section A.
\<close>

theorem groups_not_sorted:
  "renderDatabaseList two_group_databases
   = Sidebar
       \<lparr>root_items = [],
        group_sections =
          [(''B'', [\<lparr>db_key = ''k1'', db_name = ''first'', db_engine = ''postgresql'',
                     db_fields = None, db_group = Some ''B'', db_order = Some 0,
                     db_status = None\<rparr>]),
           (''A'', [\<lparr>db_key = ''k2'', db_name = ''second'', db_engine = ''mysql'',
                     db_fields = None, db_group = Some ''A'', db_order = Some 0,
                     db_status = None\<rparr>])]\<rparr>
   \<and> sort [''B'', ''A''] = [''A'', ''B'']"
  by (simp add: sidebar_eval two_group_databases_def)

theorem groups_not_sorted_witness:
  "map fst (case renderDatabaseList two_group_databases of
              NoDatabases \<Rightarrow> [] | Sidebar sb \<Rightarrow> group_sections sb
            | RenderThrew \<Rightarrow> []) = [''B'', ''A'']
   \<and> \<not> sorted [''B'', ''A'']"
  using groups_not_sorted by (simp add: less_eq_char_def less_char_def)

section \<open>Responses 401 and 403\<close>






section \<open>Status checks and status events\<close>

text \<open>
  C7. The script registers one interval timer, of 5000 milliseconds. At a tick its
  callback emits one \<^verbatim>\<open>check_status\<close> request per key of the cache as it is then,
  for every key and for no other. The handler of \<^verbatim>\<open>db_status_update\<close> replaces the
  status of the cached entry of the event's key by the event's status.
\<close>

theorem status_checks:
  "map fst interval_timers = [5000]
   \<and> list_all (\<lambda>(delay, callback). callback dbs = map (Emit ''check_status'') (Object_keys dbs))
       interval_timers
   \<and> set (Object_keys dbs) = fst ` set dbs
   \<and> (distinct (map fst dbs) \<longrightarrow> distinct (Object_keys dbs))
   \<and> (obj_get dbs (ev_db_key ev) = Some db \<longrightarrow>
        obj_get (on_db_status_update ev dbs) (ev_db_key ev)
          = Some (db\<lparr>db_status := Some (ev_status ev)\<rparr>))"
  by (simp add: interval_timers_def status_tick_def set_Object_keys distinct_Object_keys
      on_db_status_update_def updateDatabaseStatus_def obj_get_obj_set)

theorem status_checks_witness:
  "snd (hd interval_timers) example_databases
     = [Emit ''check_status'' ''k1'', Emit ''check_status'' ''k2'', Emit ''check_status'' ''k3'']
   \<and> map fst interval_timers = [5000]
   \<and> distinct (Object_keys example_databases)
   \<and> map_option db_status
       (obj_get
          (on_db_status_update
             \<lparr>ev_db_key = ''k2'', ev_status = \<lparr>connected = True, error_text = None\<rparr>\<rparr>
             example_databases) ''k2'')
     = Some (Some \<lparr>connected = True, error_text = None\<rparr>)"
proof -
  let ?ev = "\<lparr>ev_db_key = ''k2'', ev_status = \<lparr>connected = True, error_text = None\<rparr>\<rparr>"
  let ?k2 = "\<lparr>db_key = ''k2'', db_name = ''files'', db_engine = ''sqlite'',
               db_fields = Some [(''filePath'', ''./data/database.db'')],
               db_group = None, db_order = Some 0, db_status = None\<rparr>"
  note inst = status_checks[of example_databases ?ev ?k2]
  have keys: "Object_keys example_databases = [''k1'', ''k2'', ''k3'']"
    by (simp add: Object_keys_def Object_entries_def is_array_index_def is_digit_def
        example_databases_def)
  have d: "distinct (map fst example_databases)" by (simp add: example_databases_def)
  have look: "obj_get example_databases (ev_db_key ?ev) = Some ?k2"
    by (simp add: obj_get_def example_databases_def)
  from inst keys have tick: "snd (hd interval_timers) example_databases
     = [Emit ''check_status'' ''k1'', Emit ''check_status'' ''k2'', Emit ''check_status'' ''k3'']"
    by (simp add: interval_timers_def)
  from inst d have dk: "distinct (Object_keys example_databases)" by blast
  from inst look have "obj_get (on_db_status_update ?ev example_databases) (ev_db_key ?ev)
          = Some (?k2\<lparr>db_status := Some (ev_status ?ev)\<rparr>)"
    by blast
  then have st: "map_option db_status
       (obj_get (on_db_status_update ?ev example_databases) ''k2'')
     = Some (Some \<lparr>connected = True, error_text = None\<rparr>)"
    by simp
  from inst tick dk st show ?thesis by blast
qed


end
